theory Spec2Isabelle
  imports Main
begin

section \<open>SHA-256, as used by \<open>crypto.createHash('sha256')\<close>\<close>

text \<open>
  The program hashes with Node's \<open>crypto\<close> module:
  \<open>crypto.createHash('sha256').update(s).digest('hex')\<close>. That is the SHA-256 function of
  FIPS 180-4 applied to the bytes of \<open>s\<close>, printed as 64 lower-case hexadecimal digits. It is
  modelled here in full, so that hashes of concrete blocks can be computed inside the logic.

  A 32-bit word is a list of 32 bits, least significant bit first. Addition is the
  ripple-carry adder on such lists (that is, addition modulo \<open>2 ^ 32\<close>); the logical
  operations work bit by bit. A JavaScript string is modelled as the list of its UTF-8 bytes,
  which is what \<open>update\<close> feeds to the hash function; an Isabelle \<open>char\<close> is one byte.
\<close>

type_synonym w32 = "bool list"

fun xorw :: "w32 \<Rightarrow> w32 \<Rightarrow> w32" where
  "xorw (a # as) (b # bs) = (a \<noteq> b) # xorw as bs"
| "xorw _ _ = []"

fun andw :: "w32 \<Rightarrow> w32 \<Rightarrow> w32" where
  "andw (a # as) (b # bs) = (a \<and> b) # andw as bs"
| "andw _ _ = []"

fun notw :: "w32 \<Rightarrow> w32" where
  "notw (a # as) = (\<not> a) # notw as"
| "notw [] = []"

fun addc :: "bool \<Rightarrow> w32 \<Rightarrow> w32 \<Rightarrow> w32" where
  "addc c (a # as) (b # bs) =
     ((a \<noteq> b) \<noteq> c) # addc ((a \<and> b) \<or> (c \<and> (a \<noteq> b))) as bs"
| "addc c _ _ = []"

definition addw :: "w32 \<Rightarrow> w32 \<Rightarrow> w32" where
  "addw x y = addc False x y"

definition rotr :: "nat \<Rightarrow> w32 \<Rightarrow> w32" where
  "rotr n x = drop n x @ take n x"

definition shr :: "nat \<Rightarrow> w32 \<Rightarrow> w32" where
  "shr n x = drop n x @ replicate n False"

definition Ch :: "w32 \<Rightarrow> w32 \<Rightarrow> w32 \<Rightarrow> w32" where
  "Ch x y z = xorw (andw x y) (andw (notw x) z)"

definition Maj :: "w32 \<Rightarrow> w32 \<Rightarrow> w32 \<Rightarrow> w32" where
  "Maj x y z = xorw (xorw (andw x y) (andw x z)) (andw y z)"

definition bsig0 :: "w32 \<Rightarrow> w32" where
  "bsig0 x = xorw (xorw (rotr 2 x) (rotr 13 x)) (rotr 22 x)"

definition bsig1 :: "w32 \<Rightarrow> w32" where
  "bsig1 x = xorw (xorw (rotr 6 x) (rotr 11 x)) (rotr 25 x)"

definition ssig0 :: "w32 \<Rightarrow> w32" where
  "ssig0 x = xorw (xorw (rotr 7 x) (rotr 18 x)) (shr 3 x)"

definition ssig1 :: "w32 \<Rightarrow> w32" where
  "ssig1 x = xorw (xorw (rotr 17 x) (rotr 19 x)) (shr 10 x)"

fun nat_bits :: "nat \<Rightarrow> nat \<Rightarrow> bool list" where
  "nat_bits 0 n = []"
| "nat_bits (Suc k) n = odd n # nat_bits k (n div 2)"

definition K256 :: "w32 list" where
  "K256 = map (nat_bits 32) [
   0x428A2F98, 0x71374491, 0xB5C0FBCF, 0xE9B5DBA5, 0x3956C25B, 0x59F111F1, 0x923F82A4, 0xAB1C5ED5,
   0xD807AA98, 0x12835B01, 0x243185BE, 0x550C7DC3, 0x72BE5D74, 0x80DEB1FE, 0x9BDC06A7, 0xC19BF174,
   0xE49B69C1, 0xEFBE4786, 0x0FC19DC6, 0x240CA1CC, 0x2DE92C6F, 0x4A7484AA, 0x5CB0A9DC, 0x76F988DA,
   0x983E5152, 0xA831C66D, 0xB00327C8, 0xBF597FC7, 0xC6E00BF3, 0xD5A79147, 0x06CA6351, 0x14292967,
   0x27B70A85, 0x2E1B2138, 0x4D2C6DFC, 0x53380D13, 0x650A7354, 0x766A0ABB, 0x81C2C92E, 0x92722C85,
   0xA2BFE8A1, 0xA81A664B, 0xC24B8B70, 0xC76C51A3, 0xD192E819, 0xD6990624, 0xF40E3585, 0x106AA070,
   0x19A4C116, 0x1E376C08, 0x2748774C, 0x34B0BCB5, 0x391C0CB3, 0x4ED8AA4A, 0x5B9CCA4F, 0x682E6FF3,
   0x748F82EE, 0x78A5636F, 0x84C87814, 0x8CC70208, 0x90BEFFFA, 0xA4506CEB, 0xBEF9A3F7, 0xC67178F2]"

definition H256 :: "w32 list" where
  "H256 = map (nat_bits 32)
     [0x6A09E667, 0xBB67AE85, 0x3C6EF372, 0xA54FF53A,
      0x510E527F, 0x9B05688C, 0x1F83D9AB, 0x5BE0CD19]"

fun char_bits :: "char \<Rightarrow> bool list" where
  "char_bits (Char b0 b1 b2 b3 b4 b5 b6 b7) = [b0, b1, b2, b3, b4, b5, b6, b7]"

definition byte :: "nat \<Rightarrow> char" where
  "byte n = Char (odd n) (odd (n div 2)) (odd (n div 4)) (odd (n div 8))
                 (odd (n div 16)) (odd (n div 32)) (odd (n div 64)) (odd (n div 128))"

fun be_bytes :: "nat \<Rightarrow> nat \<Rightarrow> char list" where
  "be_bytes 0 n = []"
| "be_bytes (Suc k) n = byte (n div 256 ^ k) # be_bytes k n"

text \<open>
  Padding: the byte \<open>0x80\<close>, then zero bytes up to 56 modulo 64, then the length of the
  message in bits as eight big-endian bytes.
\<close>

definition pad :: "string \<Rightarrow> string" where
  "pad m = m @ [byte 128] @ replicate ((119 - length m mod 64) mod 64) (byte 0)
             @ be_bytes 8 (8 * length m)"

fun be_words :: "char list \<Rightarrow> w32 list" where
  "be_words (a # b # c # d # r) =
     (char_bits d @ char_bits c @ char_bits b @ char_bits a) # be_words r"
| "be_words _ = []"

fun chunks :: "nat \<Rightarrow> 'a list \<Rightarrow> 'a list list" where
  "chunks 0 xs = []"
| "chunks (Suc k) xs = take 16 xs # chunks k (drop 16 xs)"

text \<open>The message schedule is built newest word first: \<open>ws ! 1\<close> is \<open>W\<^bsub>t-2\<^esub>\<close>.\<close>

fun schedule :: "nat \<Rightarrow> w32 list \<Rightarrow> w32 list" where
  "schedule 0 ws = ws"
| "schedule (Suc k) ws =
     schedule k (addw (addw (addw (ssig1 (ws ! 1)) (ws ! 6)) (ssig0 (ws ! 14))) (ws ! 15) # ws)"

definition step256 :: "w32 list \<Rightarrow> w32 \<Rightarrow> w32 \<Rightarrow> w32 list" where
  "step256 s t1 t2 = [addw t1 t2, s ! 0, s ! 1, s ! 2, addw (s ! 3) t1, s ! 4, s ! 5, s ! 6]"

definition round256 :: "w32 list \<Rightarrow> w32 \<Rightarrow> w32 \<Rightarrow> w32 list" where
  "round256 s k w =
     step256 s
       (addw (addw (addw (addw (s ! 7) (bsig1 (s ! 4))) (Ch (s ! 4) (s ! 5) (s ! 6))) k) w)
       (addw (bsig0 (s ! 0)) (Maj (s ! 0) (s ! 1) (s ! 2)))"

fun rounds :: "w32 list \<Rightarrow> w32 list \<Rightarrow> w32 list \<Rightarrow> w32 list" where
  "rounds s (k # ks) (w # ws) = rounds (round256 s k w) ks ws"
| "rounds s _ _ = s"

fun addws :: "w32 list \<Rightarrow> w32 list \<Rightarrow> w32 list" where
  "addws (x # xs) (y # ys) = addw x y # addws xs ys"
| "addws _ _ = []"

definition compress :: "w32 list \<Rightarrow> w32 list \<Rightarrow> w32 list" where
  "compress hs blk = addws hs (rounds hs K256 (rev (schedule 48 (rev blk))))"

fun hexdigit :: "bool \<Rightarrow> bool \<Rightarrow> bool \<Rightarrow> bool \<Rightarrow> char" where
  "hexdigit False False False False = CHR ''0''"
| "hexdigit False False False True = CHR ''1''"
| "hexdigit False False True False = CHR ''2''"
| "hexdigit False False True True = CHR ''3''"
| "hexdigit False True False False = CHR ''4''"
| "hexdigit False True False True = CHR ''5''"
| "hexdigit False True True False = CHR ''6''"
| "hexdigit False True True True = CHR ''7''"
| "hexdigit True False False False = CHR ''8''"
| "hexdigit True False False True = CHR ''9''"
| "hexdigit True False True False = CHR ''a''"
| "hexdigit True False True True = CHR ''b''"
| "hexdigit True True False False = CHR ''c''"
| "hexdigit True True False True = CHR ''d''"
| "hexdigit True True True False = CHR ''e''"
| "hexdigit True True True True = CHR ''f''"

fun hex_word :: "w32 \<Rightarrow> string" where
  "hex_word (b0 # b1 # b2 # b3 # r) = hex_word r @ [hexdigit b3 b2 b1 b0]"
| "hex_word _ = []"

definition digest256 :: "nat \<Rightarrow> string \<Rightarrow> string" where
  "digest256 n bytes =
     concat (map hex_word (foldl compress H256 (chunks n (be_words bytes))))"

definition sha256 :: "string \<Rightarrow> string" where
  "sha256 m = digest256 ((length m + 8) div 64 + 1) (pad m)"


section \<open>JavaScript values\<close>

text \<open>
  A JavaScript number holding an amount is modelled as an integer or one of the three
  non-finite values; arithmetic on the integer part is exact. (JavaScript numbers are
  double-precision floats: the model is exact for integer values below \<open>2 ^ 53\<close> in
  magnitude, and fractional amounts are outside it.) Indices, timestamps and nonces are
  natural numbers.
\<close>

datatype jsnum = Fin int | PosInf | NegInf | NaN

fun jadd :: "jsnum \<Rightarrow> jsnum \<Rightarrow> jsnum" where
  "jadd (Fin a) (Fin b) = Fin (a + b)"
| "jadd NaN y = NaN"
| "jadd x NaN = NaN"
| "jadd PosInf NegInf = NaN"
| "jadd NegInf PosInf = NaN"
| "jadd PosInf y = PosInf"
| "jadd x PosInf = PosInf"
| "jadd NegInf y = NegInf"
| "jadd x NegInf = NegInf"

fun jneg :: "jsnum \<Rightarrow> jsnum" where
  "jneg (Fin a) = Fin (- a)"
| "jneg PosInf = NegInf"
| "jneg NegInf = PosInf"
| "jneg NaN = NaN"

text \<open>JavaScript's \<open>x - y\<close>; on numbers it is \<open>x + (-y)\<close>.\<close>

definition jsub :: "jsnum \<Rightarrow> jsnum \<Rightarrow> jsnum" where
  "jsub x y = jadd x (jneg y)"

text \<open>The comparisons \<open>x <= 0\<close> and \<open>x < 0\<close>; every comparison with \<open>NaN\<close> is false.\<close>

fun jle0 :: "jsnum \<Rightarrow> bool" where
  "jle0 (Fin a) = (a \<le> 0)"
| "jle0 NegInf = True"
| "jle0 PosInf = False"
| "jle0 NaN = False"


text \<open>\<open>Number.prototype.toString\<close> on integers: decimal digits, a minus sign when negative.\<close>

definition digit :: "nat \<Rightarrow> char" where
  "digit n = ''0123456789'' ! n"

function nat_toString :: "nat \<Rightarrow> string" where
  "nat_toString n = (if n < 10 then [digit n] else nat_toString (n div 10) @ [digit (n mod 10)])"
  by pat_completeness auto
termination
  by (relation "measure id") auto

declare nat_toString.simps [simp del]

definition int_toString :: "int \<Rightarrow> string" where
  "int_toString i = (if i < 0 then CHR ''-'' # nat_toString (nat (- i)) else nat_toString (nat i))"

text \<open>
  \<open>JSON.stringify\<close> on a number: the non-finite values are all written \<open>null\<close>.
\<close>

fun json_number :: "jsnum \<Rightarrow> string" where
  "json_number (Fin a) = int_toString a"
| "json_number PosInf = ''null''"
| "json_number NegInf = ''null''"
| "json_number NaN = ''null''"

text \<open>
  \<open>JSON.stringify\<close> on a string: quotes around it, the quote and the backslash escaped,
  control characters written as \<open>\b \t \n \f \r\<close> or \<open>\u00XX\<close>.
\<close>

definition hexchar :: "nat \<Rightarrow> char" where
  "hexchar n = ''0123456789abcdef'' ! n"

definition json_escape :: "char \<Rightarrow> string" where
  "json_escape c =
     (if c = CHR 0x22 then [CHR 0x5C, CHR 0x22]
      else if c = CHR 0x5C then [CHR 0x5C, CHR 0x5C]
      else if c = CHR 0x08 then [CHR 0x5C, CHR ''b'']
      else if c = CHR 0x0C then [CHR 0x5C, CHR ''f'']
      else if c = CHR 0x0A then [CHR 0x5C, CHR ''n'']
      else if c = CHR 0x0D then [CHR 0x5C, CHR ''r'']
      else if c = CHR 0x09 then [CHR 0x5C, CHR ''t'']
      else if (of_char c :: nat) < 32
        then [CHR 0x5C, CHR ''u'', CHR ''0'', CHR ''0'',
              hexchar (of_char c div 16), hexchar (of_char c mod 16)]
      else [c])"

definition json_string :: "string \<Rightarrow> string" where
  "json_string s = [CHR 0x22] @ concat (map json_escape s) @ [CHR 0x22]"

text \<open>An address is a string or \<open>null\<close>.\<close>

type_synonym address = "string option"

fun json_address :: "address \<Rightarrow> string" where
  "json_address None = ''null''"
| "json_address (Some s) = json_string s"

text \<open>JavaScript's \<open>!a\<close> on an address: \<open>null\<close> and the empty string are falsy.\<close>

fun falsy :: "address \<Rightarrow> bool" where
  "falsy None = True"
| "falsy (Some s) = (s = [])"

section \<open>Transaction\<close>

record Transaction =
  sender :: address
  recipient :: address
  amount :: jsnum
  tx_timestamp :: nat

text \<open>The constructor; \<open>now\<close> is the value \<open>Date.now()\<close> returns.\<close>

definition new_Transaction :: "address \<Rightarrow> address \<Rightarrow> jsnum \<Rightarrow> nat \<Rightarrow> Transaction" where
  "new_Transaction s r a now = \<lparr>sender = s, recipient = r, amount = a, tx_timestamp = now\<rparr>"

definition json_Transaction :: \<open>Transaction \<Rightarrow> string\<close> where
  \<open>json_Transaction tx =
     ''{"sender":'' @ json_address (sender tx) @
     '',"recipient":'' @ json_address (recipient tx) @
     '',"amount":'' @ json_number (amount tx) @
     '',"timestamp":'' @ nat_toString (tx_timestamp tx) @ ''}''\<close>

fun join_comma :: "string list \<Rightarrow> string" where
  "join_comma [] = []"
| "join_comma [x] = x"
| "join_comma (x # y # r) = x @ '','' @ join_comma (y # r)"

text \<open>\<open>JSON.stringify(this.transactions)\<close>.\<close>

definition json_transactions :: "Transaction list \<Rightarrow> string" where
  "json_transactions txs = ''['' @ join_comma (map json_Transaction txs) @ '']''"

section \<open>Block\<close>

record Block =
  index :: nat
  timestamp :: nat
  transactions :: "Transaction list"
  previousHash :: string
  nonce :: nat
  hash :: string

definition calculateHash :: "Block \<Rightarrow> string" where
  "calculateHash b =
     sha256 (nat_toString (index b) @ nat_toString (timestamp b) @
             json_transactions (transactions b) @ previousHash b @ nat_toString (nonce b))"

definition new_Block :: "nat \<Rightarrow> nat \<Rightarrow> Transaction list \<Rightarrow> string \<Rightarrow> Block" where
  "new_Block i t txs p =
     (let this = \<lparr>index = i, timestamp = t, transactions = txs, previousHash = p,
                  nonce = 0, hash = []\<rparr>
      in this\<lparr>hash := calculateHash this\<rparr>)"

text \<open>
  \<open>mineBlock\<close>: the loop \<open>while (this.hash.substring(0, difficulty) !== targetPrefix)\<close>.
  The loop has no bound, so the result is an option: \<open>None\<close> when it runs forever.
  The two console messages are not modelled.
\<close>

definition next_nonce :: "Block \<Rightarrow> Block" where
  "next_nonce b = (let this = b\<lparr>nonce := nonce b + 1\<rparr> in this\<lparr>hash := calculateHash this\<rparr>)"

partial_function (option) mineBlock :: "nat \<Rightarrow> Block \<Rightarrow> Block option" where
  "mineBlock difficulty b =
     (if take difficulty (hash b) \<noteq> replicate difficulty CHR ''0''
      then mineBlock difficulty (next_nonce b)
      else Some b)"

section \<open>Blockchain\<close>

record Blockchain =
  chain :: "Block list"
  difficulty :: nat
  pendingTransactions :: "Transaction list"
  miningReward :: jsnum

datatype error = InvalidTransaction | TypeError

definition createGenesisBlock :: "nat \<Rightarrow> Block" where
  "createGenesisBlock now = new_Block 0 now [] ''0''"

definition new_Blockchain :: "nat \<Rightarrow> Blockchain" where
  "new_Blockchain now =
     \<lparr>chain = [createGenesisBlock now], difficulty = 4, pendingTransactions = [],
      miningReward = Fin 100\<rparr>"

text \<open>\<open>this.chain[this.chain.length - 1]\<close> is \<open>undefined\<close> on an empty chain.\<close>

definition getLastBlock :: "Blockchain \<Rightarrow> Block option" where
  "getLastBlock l = (if chain l = [] then None else Some (last (chain l)))"

definition addTransaction :: "Transaction \<Rightarrow> Blockchain \<Rightarrow> error + Blockchain" where
  "addTransaction tx l =
     (if falsy (sender tx) \<or> falsy (recipient tx) \<or> jle0 (amount tx)
      then Inl InvalidTransaction
      else Inr (l\<lparr>pendingTransactions := pendingTransactions l @ [tx]\<rparr>))"

text \<open>
  \<open>minePendingTransactions\<close> reads the clock twice: \<open>now\<close> for the block and \<open>now'\<close> for
  the reward transaction. Reading \<open>.hash\<close> of \<open>undefined\<close> (an empty chain) throws a
  \<open>TypeError\<close>. \<open>None\<close> means that mining never ends.
\<close>

definition minePendingTransactions ::
    "address \<Rightarrow> nat \<Rightarrow> nat \<Rightarrow> Blockchain \<Rightarrow> (error + Blockchain) option" where
  "minePendingTransactions minerAddress now now' l =
     (case getLastBlock l of
        None \<Rightarrow> Some (Inl TypeError)
      | Some lastBlock \<Rightarrow>
          (case mineBlock (difficulty l)
                  (new_Block (length (chain l)) now (pendingTransactions l) (hash lastBlock)) of
             None \<Rightarrow> None
           | Some block \<Rightarrow>
               Some (Inr (l\<lparr>chain := chain l @ [block],
                            pendingTransactions :=
                              [new_Transaction None minerAddress (miningReward l) now']\<rparr>))))"

text \<open>
  \<open>validateChain\<close>: the loop from \<open>i = 1\<close>, returning the result together with the line
  written to the console.
\<close>

function validateLoop :: "Block list \<Rightarrow> nat \<Rightarrow> bool \<times> string list" where
  "validateLoop c i =
     (if i < length c then
        (let current = c ! i; previous = c ! (i - 1) in
         if hash current \<noteq> calculateHash current
           then (False, [''Block '' @ nat_toString i @ '' data corrupted - hash mismatch''])
         else if previousHash current \<noteq> hash previous
           then (False, [''Block '' @ nat_toString i @ '' has broken chain link''])
         else validateLoop c (i + 1))
      else (True, []))"
  by pat_completeness auto
termination
  by (relation "measure (\<lambda>(c, i). length c - i)") auto

declare validateLoop.simps [simp del]

definition validateChain :: "Blockchain \<Rightarrow> bool" where
  "validateChain l = fst (validateLoop (chain l) 1)"

definition validateChain_console :: "Blockchain \<Rightarrow> string list" where
  "validateChain_console l = snd (validateLoop (chain l) 1)"

text \<open>\<open>getBalance\<close>: the two nested loops, the balance as accumulator.\<close>

definition balance_step :: "address \<Rightarrow> jsnum \<Rightarrow> Transaction \<Rightarrow> jsnum" where
  "balance_step a balance tx =
     (let balance = (if sender tx = a then jsub balance (amount tx) else balance)
      in if recipient tx = a then jadd balance (amount tx) else balance)"

definition getBalance :: "Blockchain \<Rightarrow> address \<Rightarrow> jsnum" where
  "getBalance l a =
     foldl (\<lambda>balance block. foldl (balance_step a) balance (transactions block))
       (Fin 0) (chain l)"

subsection \<open>\<open>validateChain\<close> as a run on the state of the program\<close>

text \<open>
  The state of the program: the ledger object and the lines written to the console so far.
  \<open>validateChain\<close> is run on it statement by statement: every iteration reads
  \<open>this.chain\<close> from the current state, \<open>console.log\<close> appends a line, and the state the
  loop ends in is returned together with the result.
\<close>

record world =
  ledger :: Blockchain
  console :: "string list"

definition console_log :: "string \<Rightarrow> world \<Rightarrow> world" where
  "console_log line w = w\<lparr>console := console w @ [line]\<rparr>"

function validateChain_run :: "nat \<Rightarrow> world \<Rightarrow> bool \<times> world" where
  "validateChain_run i w =
     (if i < length (chain (ledger w)) then
        (let current = chain (ledger w) ! i; previous = chain (ledger w) ! (i - 1) in
         if hash current \<noteq> calculateHash current
           then (False,
                 console_log (''Block '' @ nat_toString i @ '' data corrupted - hash mismatch'') w)
         else if previousHash current \<noteq> hash previous
           then (False, console_log (''Block '' @ nat_toString i @ '' has broken chain link'') w)
         else validateChain_run (i + 1) w)
      else (True, w))"
  by pat_completeness auto
termination
  by (relation "measure (\<lambda>(i, w). length (chain (ledger w)) - i)") auto

declare validateChain_run.simps [simp del]

subsection \<open>Calls on a ledger\<close>

text \<open>
  A call on the ledger object takes the ledger state to a returned value and the state
  after the call. A thrown error leaves the state as it was. The state after
  \<open>validateChain\<close> is the one its run ends in.
\<close>

datatype call =
    AddTransaction Transaction
  | MinePendingTransactions address nat nat
  | ValidateChain
  | GetBalance address

datatype result = Returned | ReturnedBool bool | ReturnedNumber jsnum | Thrown error

definition exec :: "call \<Rightarrow> Blockchain \<Rightarrow> (result \<times> Blockchain) option" where
  "exec c l =
     (case c of
        AddTransaction tx \<Rightarrow>
          (case addTransaction tx l of
             Inl e \<Rightarrow> Some (Thrown e, l)
           | Inr l' \<Rightarrow> Some (Returned, l'))
      | MinePendingTransactions m now now' \<Rightarrow>
          (case minePendingTransactions m now now' l of
             None \<Rightarrow> None
           | Some (Inl e) \<Rightarrow> Some (Thrown e, l)
           | Some (Inr l') \<Rightarrow> Some (Returned, l'))
      | ValidateChain \<Rightarrow>
          (case validateChain_run 1 \<lparr>ledger = l, console = []\<rparr> of
             (valid, w) \<Rightarrow> Some (ReturnedBool valid, ledger w))
      | GetBalance a \<Rightarrow> Some (ReturnedNumber (getBalance l a), l))"

inductive reachable :: "Blockchain \<Rightarrow> bool" where
  constructed: "reachable (new_Blockchain now)"
| called: "reachable l \<Longrightarrow> exec c l = Some (r, l') \<Longrightarrow> reachable l'"

subsection \<open>The balance as the specification words it\<close>



definition jsum :: "jsnum list \<Rightarrow> jsnum" where
  "jsum xs = foldl jadd (Fin 0) xs"


subsection \<open>Notions used to state the properties\<close>

text \<open>
  The loop of \<open>mineBlock\<close> stops when the first \<open>difficulty\<close> characters of the hash are
  all \<open>0\<close>.
\<close>

definition meets_target :: "nat \<Rightarrow> string \<Rightarrow> bool" where
  "meets_target d h = (take d h = replicate d CHR ''0'')"

text \<open>The hash of the block's fields with the nonce set to \<open>n\<close>.\<close>

definition hash_with_nonce :: "Block \<Rightarrow> nat \<Rightarrow> string" where
  "hash_with_nonce b n = calculateHash (b\<lparr>nonce := n\<rparr>)"

text \<open>The block \<open>b\<close> with nonce \<open>n\<close> and the hash computed for it.\<close>

definition sealed :: "Block \<Rightarrow> nat \<Rightarrow> Block" where
  "sealed b n = b\<lparr>nonce := n, hash := hash_with_nonce b n\<rparr>"

text \<open>The two checks that one iteration of \<open>validateChain\<close> makes on block \<open>i\<close>.\<close>

definition hash_check :: "Block list \<Rightarrow> nat \<Rightarrow> bool" where
  "hash_check c i = (hash (c ! i) = calculateHash (c ! i))"

definition link_check :: "Block list \<Rightarrow> nat \<Rightarrow> bool" where
  "link_check c i = (previousHash (c ! i) = hash (c ! (i - 1)))"

text \<open>The line \<open>validateChain\<close> writes to the console when block \<open>i\<close> fails.\<close>

definition failure_line :: "Block list \<Rightarrow> nat \<Rightarrow> string" where
  "failure_line c i =
     (if \<not> hash_check c i
      then ''Block '' @ nat_toString i @ '' data corrupted - hash mismatch''
      else ''Block '' @ nat_toString i @ '' has broken chain link'')"

text \<open>Adding a list of transactions one after the other, stopping at the first throw.\<close>

fun addTransactions :: "Transaction list \<Rightarrow> Blockchain \<Rightarrow> error + Blockchain" where
  "addTransactions [] l = Inr l"
| "addTransactions (tx # txs) l =
     (case addTransaction tx l of Inl e \<Rightarrow> Inl e | Inr l' \<Rightarrow> addTransactions txs l')"

subsection \<open>A concrete run\<close>

text \<open>
  The states of one run: a ledger constructed at time 1700000000000, then two calls of
  \<open>minePendingTransactions('MinerX')\<close>. The first mined block is empty and is sealed with
  nonce 1; the second holds the reward of the first call and is sealed with nonce 0.
\<close>

definition genesis_block :: Block where
  "genesis_block =
     \<lparr>index = 0, timestamp = 1700000000000, transactions = [], previousHash = ''0'',
      nonce = 0, hash = ''971c089c122f5f8bb50333b8a5de707695259ab6937fb4d429d7986f7f94dc9e''\<rparr>"

definition block1 :: Block where
  "block1 =
     \<lparr>index = 1, timestamp = 1700000116198, transactions = [],
      previousHash = ''971c089c122f5f8bb50333b8a5de707695259ab6937fb4d429d7986f7f94dc9e'',
      nonce = 1, hash = ''0000e58866e05ed04970ab6f39b8c1303ca8864f21107ce2259e53441bbe7860''\<rparr>"

definition reward1 :: Transaction where
  "reward1 = \<lparr>sender = None, recipient = Some ''MinerX'', amount = Fin 100,
              tx_timestamp = 1700000116199\<rparr>"

definition block2 :: Block where
  "block2 =
     \<lparr>index = 2, timestamp = 1700000151107, transactions = [reward1],
      previousHash = ''0000e58866e05ed04970ab6f39b8c1303ca8864f21107ce2259e53441bbe7860'',
      nonce = 0, hash = ''0000a600e347326af9559679bf8f6487f87aaff6de77f09b3cd4365ea63b7532''\<rparr>"

definition reward2 :: Transaction where
  "reward2 = \<lparr>sender = None, recipient = Some ''MinerX'', amount = Fin 100,
              tx_timestamp = 1700000151108\<rparr>"

definition ledger0 :: Blockchain where
  "ledger0 = \<lparr>chain = [genesis_block], difficulty = 4, pendingTransactions = [],
               miningReward = Fin 100\<rparr>"

definition ledger1 :: Blockchain where
  "ledger1 = \<lparr>chain = [genesis_block, block1], difficulty = 4,
               pendingTransactions = [reward1], miningReward = Fin 100\<rparr>"

definition ledger2 :: Blockchain where
  "ledger2 = \<lparr>chain = [genesis_block, block1, block2], difficulty = 4,
               pendingTransactions = [reward2], miningReward = Fin 100\<rparr>"

text \<open>
  The state after the assignment \<open>chain[2].transactions[0].amount = 1000\<close> in the last
  state of the run.
\<close>

definition ledger2_tampered :: Blockchain where
  "ledger2_tampered =
     \<lparr>chain = [genesis_block, block1,
               block2\<lparr>transactions := [reward1\<lparr>amount := Fin 1000\<rparr>]\<rparr>],
      difficulty = 4, pendingTransactions = [reward2], miningReward = Fin 100\<rparr>"








text \<open>
  A run in which a transfer of \<open>Infinity\<close> from Alice to Bob is accepted and mined.
\<close>

definition transfer_inf :: Transaction where
  "transfer_inf = \<lparr>sender = Some ''Alice'', recipient = Some ''Bob'', amount = PosInf,
                   tx_timestamp = 1700000000001\<rparr>"

definition block1_inf :: Block where
  "block1_inf =
     \<lparr>index = 1, timestamp = 1700000121419, transactions = [transfer_inf],
      previousHash = ''971c089c122f5f8bb50333b8a5de707695259ab6937fb4d429d7986f7f94dc9e'',
      nonce = 0, hash = ''00000825f94314b8a6e6ac406c4a69c1f1639961ba18a2aae0baae3f21e4e27c''\<rparr>"

definition ledger1_inf :: Blockchain where
  "ledger1_inf = \<lparr>chain = [genesis_block, block1_inf], difficulty = 4,
                   pendingTransactions =
                     [\<lparr>sender = None, recipient = Some ''MinerX'', amount = Fin 100,
                       tx_timestamp = 1700000121420\<rparr>],
                   miningReward = Fin 100\<rparr>"

text \<open>
  The state after the assignment \<open>chain[1].transactions[0].amount = NaN\<close> in the last state
  of that run. The transaction object was added once, so it sits in block 1 and nowhere
  else in the ledger.
\<close>

definition ledger1_inf_tampered :: Blockchain where
  "ledger1_inf_tampered =
     \<lparr>chain = [genesis_block, block1_inf\<lparr>transactions := [transfer_inf\<lparr>amount := NaN\<rparr>]\<rparr>],
      difficulty = 4,
      pendingTransactions =
        [\<lparr>sender = None, recipient = Some ''MinerX'', amount = Fin 100,
          tx_timestamp = 1700000121420\<rparr>],
      miningReward = Fin 100\<rparr>"

section \<open>Computing hashes\<close>

text \<open>
  Hashes of concrete strings are computed by rewriting with the defining equations: first
  the padding, then the compression function on the bit lists.
\<close>

lemma nat_bits_numeral:
  "nat_bits (numeral k) n = odd n # nat_bits (pred_numeral k) (n div 2)"
  by (simp add: numeral_eq_Suc)

lemma be_bytes_numeral:
  "be_bytes (numeral k) n = byte (n div 256 ^ pred_numeral k) # be_bytes (pred_numeral k) n"
  by (simp add: numeral_eq_Suc)

lemma K256_bits:
  "K256 =
    [[False, False, False, True, True, False, False, True, True, True, True, True, False, True, False, False, False, True, False, True, False, False, False, True, False, True, False, False, False, False, True, False],
     [True, False, False, False, True, False, False, True, False, False, True, False, False, False, True, False, True, True, True, False, True, True, False, False, True, False, False, False, True, True, True, False],
     [True, True, True, True, False, False, True, True, True, True, False, True, True, True, True, True, False, False, False, False, False, False, True, True, True, False, True, False, True, True, False, True],
     [True, False, True, False, False, True, False, True, True, True, False, True, True, False, True, True, True, False, True, False, True, True, False, True, True, False, False, True, False, True, True, True],
     [True, True, False, True, True, False, True, False, False, True, False, False, False, False, True, True, False, True, True, False, True, False, True, False, True, False, False, True, True, True, False, False],
     [True, False, False, False, True, True, True, True, True, False, False, False, True, False, False, False, True, False, False, False, True, True, True, True, True, False, False, True, True, False, True, False],
     [False, False, True, False, False, True, False, True, False, True, False, False, False, False, False, True, True, True, True, True, True, True, False, False, False, True, False, False, True, False, False, True],
     [True, False, True, False, True, False, True, True, False, True, True, True, True, False, True, False, False, False, True, True, True, False, False, False, True, True, False, True, False, True, False, True],
     [False, False, False, True, True, False, False, True, False, True, False, True, False, True, False, True, True, True, True, False, False, False, False, False, False, False, False, True, True, False, True, True],
     [True, False, False, False, False, False, False, False, True, True, False, True, True, False, True, False, True, True, False, False, False, False, False, True, False, True, False, False, True, False, False, False],
     [False, True, True, True, True, True, False, True, True, False, True, False, False, False, False, True, True, False, False, False, True, True, False, False, False, False, True, False, False, True, False, False],
     [True, True, False, False, False, False, True, True, True, False, True, True, True, True, True, False, False, False, True, True, False, False, False, False, True, False, True, False, True, False, True, False],
     [False, False, True, False, True, True, True, False, True, False, True, True, True, False, True, False, False, True, True, True, True, True, False, True, False, True, False, False, True, True, True, False],
     [False, True, True, True, True, True, True, True, True, False, False, False, True, True, False, True, False, True, True, True, True, False, True, True, False, False, False, False, False, False, False, True],
     [True, True, True, False, False, True, False, True, False, True, True, False, False, False, False, False, False, False, True, True, True, False, True, True, True, True, False, True, True, False, False, True],
     [False, False, True, False, True, True, True, False, True, False, False, False, True, True, True, True, True, True, False, True, True, False, False, True, True, False, False, False, False, False, True, True],
     [True, False, False, False, False, False, True, True, True, False, False, True, False, True, True, False, True, True, False, True, True, False, False, True, False, False, True, False, False, True, True, True],
     [False, True, True, False, False, False, False, True, True, True, True, False, False, False, True, False, False, True, True, True, True, True, False, True, True, True, True, True, False, True, True, True],
     [False, True, True, False, False, False, True, True, True, False, True, True, True, False, False, True, True, False, False, False, False, False, True, True, True, True, True, True, False, False, False, False],
     [False, False, True, True, False, False, True, True, True, False, False, False, False, True, False, True, False, False, True, True, False, False, False, False, False, False, True, False, False, True, False, False],
     [True, True, True, True, False, True, True, False, False, False, True, True, False, True, False, False, True, False, False, True, False, True, True, True, True, False, True, True, False, True, False, False],
     [False, True, False, True, False, True, False, True, False, False, True, False, False, False, False, True, False, False, True, False, True, True, True, False, False, True, False, True, False, False, True, False],
     [False, False, True, True, True, False, True, True, True, False, False, True, False, True, False, True, False, False, False, False, True, True, False, True, False, False, True, True, True, False, True, False],
     [False, True, False, True, True, False, True, True, False, False, False, True, False, False, False, True, True, False, False, True, True, True, True, True, False, True, True, False, True, True, True, False],
     [False, True, False, False, True, False, True, False, True, False, False, False, True, False, True, False, False, True, True, True, True, True, False, False, False, False, False, True, True, False, False, True],
     [True, False, True, True, False, True, True, False, False, True, True, False, False, False, True, True, True, False, False, False, True, True, False, False, False, False, False, True, False, True, False, True],
     [False, False, False, True, False, False, True, True, True, True, True, False, False, True, False, False, True, True, False, False, False, False, False, False, False, False, False, False, True, True, False, True],
     [True, True, True, False, False, False, True, True, True, True, True, True, True, True, True, False, True, False, False, True, True, False, True, False, True, True, True, True, True, True, False, True],
     [True, True, False, False, True, True, True, True, True, True, False, True, False, False, False, False, False, False, False, False, False, True, True, True, False, True, True, False, False, False, True, True],
     [True, True, True, False, False, False, True, False, True, False, False, False, True, False, False, True, True, True, True, False, False, True, False, True, True, False, True, False, True, False, True, True],
     [True, False, False, False, True, False, True, False, True, True, False, False, False, True, True, False, False, True, False, True, False, False, True, True, False, True, True, False, False, False, False, False],
     [True, True, True, False, False, True, True, False, True, False, False, True, False, True, False, False, True, False, False, True, False, True, False, False, False, False, True, False, True, False, False, False],
     [True, False, True, False, False, False, False, True, False, True, False, True, False, False, False, False, True, True, True, False, True, True, False, True, True, True, True, False, False, True, False, False],
     [False, False, False, True, True, True, False, False, True, False, False, False, False, True, False, False, True, True, False, True, True, False, False, False, False, True, True, True, False, True, False, False],
     [False, False, True, True, True, True, True, True, True, False, True, True, False, True, True, False, False, False, True, True, False, True, False, False, True, False, True, True, False, False, True, False],
     [True, True, False, False, True, False, False, False, True, False, True, True, False, False, False, False, False, False, False, True, True, True, False, False, True, True, False, False, True, False, True, False],
     [False, False, True, False, True, False, True, False, True, True, False, False, True, True, True, False, False, True, False, True, False, False, False, False, True, False, True, False, False, True, True, False],
     [True, True, False, True, True, True, False, True, False, True, False, True, False, False, False, False, False, True, False, True, False, True, True, False, False, True, True, False, True, True, True, False],
     [False, True, True, True, False, True, False, False, True, False, False, True, False, False, True, True, False, True, False, False, False, False, True, True, True, False, False, False, False, False, False, True],
     [True, False, True, False, False, False, False, True, False, False, True, True, False, True, False, False, False, True, False, False, True, True, True, False, False, True, False, False, True, False, False, True],
     [True, False, False, False, False, True, False, True, False, False, False, True, False, True, True, True, True, True, True, True, True, True, False, True, False, True, False, False, False, True, False, True],
     [True, True, False, True, False, False, True, False, False, True, True, False, False, True, True, False, False, True, False, True, True, False, False, False, False, False, False, True, False, True, False, True],
     [False, False, False, False, True, True, True, False, True, True, False, True, False, False, False, True, True, True, False, True, False, False, True, False, False, True, False, False, False, False, True, True],
     [True, True, False, False, False, True, False, True, True, False, False, False, True, False, True, False, False, False, True, True, False, True, True, False, True, True, True, False, False, False, True, True],
     [True, False, False, True, True, False, False, False, False, False, False, True, False, True, True, True, False, True, False, False, True, False, False, True, True, False, False, False, True, False, True, True],
     [False, False, True, False, False, True, False, False, False, True, True, False, False, False, False, False, True, False, False, True, True, False, False, True, False, True, True, False, True, False, True, True],
     [True, False, True, False, False, False, False, True, True, False, True, False, True, True, False, False, False, True, True, True, False, False, False, False, False, False, True, False, True, True, True, True],
     [False, False, False, False, True, True, True, False, False, False, False, False, False, True, False, True, False, True, False, True, False, True, True, False, False, False, False, False, True, False, False, False],
     [False, True, True, False, True, False, False, False, True, False, False, False, False, False, True, True, False, False, True, False, False, True, False, True, True, False, False, True, True, False, False, False],
     [False, False, False, True, False, False, False, False, False, False, True, True, False, True, True, False, True, True, True, False, True, True, False, False, False, True, True, True, True, False, False, False],
     [False, False, True, True, False, False, True, False, True, True, True, False, True, True, True, False, False, False, False, True, False, False, True, False, True, True, True, False, False, True, False, False],
     [True, False, True, False, True, True, False, True, False, False, True, True, True, True, False, True, False, False, False, False, True, True, False, True, False, False, True, False, True, True, False, False],
     [True, True, False, False, True, True, False, True, False, False, True, True, False, False, False, False, False, False, True, True, True, False, False, False, True, False, False, True, True, True, False, False],
     [False, True, False, True, False, False, True, False, False, True, False, True, False, True, False, True, False, False, False, True, True, False, True, True, False, True, True, True, False, False, True, False],
     [True, True, True, True, False, False, True, False, False, True, False, True, False, False, True, True, False, False, True, True, True, False, False, True, True, True, False, True, True, False, True, False],
     [True, True, False, False, True, True, True, True, True, True, True, True, False, True, True, False, False, True, True, True, False, True, False, False, False, False, False, True, False, True, True, False],
     [False, True, True, True, False, True, True, True, False, True, False, False, False, False, False, True, True, True, True, True, False, False, False, True, False, False, True, False, True, True, True, False],
     [True, True, True, True, False, True, True, False, True, True, False, False, False, True, True, False, True, False, True, False, False, True, False, True, False, False, False, True, True, True, True, False],
     [False, False, True, False, True, False, False, False, False, False, False, True, True, True, True, False, False, False, False, True, False, False, True, True, False, False, True, False, False, False, False, True],
     [False, False, False, True, False, False, False, False, False, True, False, False, False, False, False, False, True, True, True, False, False, False, True, True, False, False, True, True, False, False, False, True],
     [False, True, False, True, True, True, True, True, True, True, True, True, True, True, True, True, False, True, True, True, True, True, False, True, False, False, False, False, True, False, False, True],
     [True, True, False, True, False, True, True, True, False, False, True, True, False, True, True, False, False, False, False, False, True, False, True, False, False, False, True, False, False, True, False, True],
     [True, True, True, False, True, True, True, True, True, True, False, False, False, True, False, True, True, False, False, True, True, True, True, True, False, True, True, True, True, True, False, True],
     [False, True, False, False, True, True, True, True, False, False, False, True, True, True, True, False, True, False, False, False, True, True, True, False, False, True, True, False, False, False, True, True]]"
  by (simp add: K256_def nat_bits_numeral)

lemma H256_bits:
  "H256 =
    [[True, True, True, False, False, True, True, False, False, True, True, False, False, True, True, True, True, False, False, True, False, False, False, False, False, True, False, True, False, True, True, False],
     [True, False, True, False, False, False, False, True, False, True, True, True, False, True, False, True, True, True, True, False, False, True, True, False, True, True, False, True, True, True, False, True],
     [False, True, False, False, True, True, True, False, True, True, False, False, True, True, True, True, False, True, True, True, False, True, True, False, False, False, True, True, True, True, False, False],
     [False, True, False, True, True, True, False, False, True, False, True, False, True, True, True, True, True, True, True, True, False, False, True, False, True, False, True, False, False, True, False, True],
     [True, True, True, True, True, True, True, False, False, True, False, False, True, False, True, False, False, True, True, True, False, False, False, False, True, False, False, False, True, False, True, False],
     [False, False, True, True, False, False, False, True, False, False, False, True, False, True, True, False, True, False, True, False, False, False, False, False, True, True, False, True, True, False, False, True],
     [True, True, False, True, False, True, False, True, True, False, False, True, True, False, True, True, True, True, False, False, False, False, False, True, True, True, True, True, True, False, False, False],
     [True, False, False, True, True, False, False, False, True, False, True, True, False, False, True, True, False, False, False, False, False, True, True, True, True, True, False, True, True, False, True, False]]"
  by (simp add: H256_def nat_bits_numeral)

lemmas sha_eval =
  digest256_def compress_def round256_def step256_def addw_def rotr_def shr_def
  Ch_def Maj_def bsig0_def bsig1_def ssig0_def ssig1_def
  K256_bits H256_bits
  xorw.simps andw.simps notw.simps addc.simps addws.simps rounds.simps schedule.simps
  chunks.simps be_words.simps char_bits.simps hex_word.simps hexdigit.simps
  foldl_Nil foldl_Cons list.map concat.simps append.simps rev.simps
  nth_Cons_0 nth_Cons_Suc take_Suc_Cons drop_Suc_Cons take_0 drop_0 take_Nil drop_Nil
  replicate.simps eval_nat_numeral BitM.simps One_nat_def simp_thms

text \<open>Two test vectors of the standard.\<close>

lemma sha256_abc:
  \<open>sha256 ''abc'' =
     ''ba7816bf8f01cfea414140de5dae2223b00361a396177a9cb410ff61f20015ad''\<close>
  apply (simp add: sha256_def pad_def byte_def be_bytes_numeral)
  apply (simp only: sha_eval)
  done

lemma sha256_two_blocks:
  \<open>sha256 ''abcdbcdecdefdefgefghfghighijhijkijkljklmklmnlmnomnopnopq'' =
     ''248d6a61d20638b8e5c026930c3e6039a33ce45964ff2167f6ecedd419db06c1''\<close>
  apply (simp add: sha256_def pad_def byte_def be_bytes_numeral)
  apply (simp only: sha_eval)
  done

text \<open>The hash inputs of the blocks of the concrete run.\<close>

lemma sha_genesis:
  \<open>sha256 ''01700000000000[]00'' =
     ''971c089c122f5f8bb50333b8a5de707695259ab6937fb4d429d7986f7f94dc9e''\<close>
  apply (simp add: sha256_def pad_def byte_def be_bytes_numeral)
  apply (simp only: sha_eval)
  done

lemma sha_b1_n0:
  \<open>sha256 ''11700000116198[]971c089c122f5f8bb50333b8a5de707695259ab6937fb4d429d7986f7f94dc9e0'' =
     ''ceb9d2b11be39d5faa87d145dd562abb17b547f6f425da17058483f794e0dcee''\<close>
  apply (simp add: sha256_def pad_def byte_def be_bytes_numeral)
  apply (simp only: sha_eval)
  done

lemma sha_b1_n1:
  \<open>sha256 ''11700000116198[]971c089c122f5f8bb50333b8a5de707695259ab6937fb4d429d7986f7f94dc9e1'' =
     ''0000e58866e05ed04970ab6f39b8c1303ca8864f21107ce2259e53441bbe7860''\<close>
  apply (simp add: sha256_def pad_def byte_def be_bytes_numeral)
  apply (simp only: sha_eval)
  done

lemma sha_b2:
  \<open>sha256 ''21700000151107[{"sender":null,"recipient":"MinerX","amount":100,"timestamp":1700000116199}]0000e58866e05ed04970ab6f39b8c1303ca8864f21107ce2259e53441bbe78600'' =
     ''0000a600e347326af9559679bf8f6487f87aaff6de77f09b3cd4365ea63b7532''\<close>
  apply (simp add: sha256_def pad_def byte_def be_bytes_numeral)
  apply (simp only: sha_eval)
  done

lemma sha_b2_tampered:
  \<open>sha256 ''21700000151107[{"sender":null,"recipient":"MinerX","amount":1000,"timestamp":1700000116199}]0000e58866e05ed04970ab6f39b8c1303ca8864f21107ce2259e53441bbe78600'' =
     ''bab5083f19917fb1931e7e14c85953e402c27445dcf941d3cccfb162c0654991''\<close>
  apply (simp add: sha256_def pad_def byte_def be_bytes_numeral)
  apply (simp only: sha_eval)
  done


lemma sha_b1_inf:
  \<open>sha256 ''11700000121419[{"sender":"Alice","recipient":"Bob","amount":null,"timestamp":1700000000001}]971c089c122f5f8bb50333b8a5de707695259ab6937fb4d429d7986f7f94dc9e0'' =
     ''00000825f94314b8a6e6ac406c4a69c1f1639961ba18a2aae0baae3f21e4e27c''\<close>
  apply (simp add: sha256_def pad_def byte_def be_bytes_numeral)
  apply (simp only: sha_eval)
  done


section \<open>Mining\<close>

lemma calculateHash_hash_update [simp]: "calculateHash (b\<lparr>hash := h\<rparr>) = calculateHash b"
  by (simp add: calculateHash_def)

lemma next_nonce_fields [simp]:
  "index (next_nonce b) = index b" "timestamp (next_nonce b) = timestamp b"
  "transactions (next_nonce b) = transactions b" "previousHash (next_nonce b) = previousHash b"
  "nonce (next_nonce b) = Suc (nonce b)"
  by (simp_all add: next_nonce_def Let_def)

lemma next_nonce_consistent [simp]: "hash (next_nonce b) = calculateHash (next_nonce b)"
  by (simp add: next_nonce_def Let_def)

lemma next_nonce_sealed: "next_nonce b = sealed b (Suc (nonce b))"
  by (simp add: next_nonce_def sealed_def Let_def hash_with_nonce_def)

lemma sealed_sealed [simp]: "sealed (sealed b m) n = sealed b n"
  by (simp add: sealed_def hash_with_nonce_def calculateHash_def)

lemma sealed_self: "hash b = calculateHash b \<Longrightarrow> sealed b (nonce b) = b"
  by (simp add: sealed_def hash_with_nonce_def)

lemma sealed_fields [simp]:
  "nonce (sealed b n) = n" "hash (sealed b n) = hash_with_nonce b n"
  "index (sealed b n) = index b" "timestamp (sealed b n) = timestamp b"
  "transactions (sealed b n) = transactions b" "previousHash (sealed b n) = previousHash b"
  by (simp_all add: sealed_def)

lemma sealed_consistent [simp]: "calculateHash (sealed b n) = hash_with_nonce b n"
  by (simp add: sealed_def hash_with_nonce_def)

lemma mineBlock_stop: "meets_target d (hash b) \<Longrightarrow> mineBlock d b = Some b"
  by (subst mineBlock.simps) (simp add: meets_target_def)

lemma mineBlock_go: "\<not> meets_target d (hash b) \<Longrightarrow> mineBlock d b = mineBlock d (next_nonce b)"
  by (subst mineBlock.simps) (simp add: meets_target_def)

lemma mineBlock_skip:
  assumes "hash b = calculateHash b"
    and "\<forall>m. nonce b \<le> m \<and> m < n \<longrightarrow> \<not> meets_target d (hash_with_nonce b m)"
    and "nonce b \<le> n"
  shows "mineBlock d b = mineBlock d (sealed b n)"
  using assms(3,2)
proof (induction n rule: dec_induct)
  case base
  show ?case by (simp add: sealed_self assms(1))
next
  case (step n)
  have "\<not> meets_target d (hash (sealed b n))" using step by simp
  then have "mineBlock d (sealed b n) = mineBlock d (next_nonce (sealed b n))"
    by (rule mineBlock_go)
  also have "next_nonce (sealed b n) = sealed b (Suc n)"
    by (simp add: next_nonce_sealed)
  finally show ?case using step by simp
qed

lemma mineBlock_found:
  assumes "hash b = calculateHash b"
    and "\<forall>m. nonce b \<le> m \<and> m < n \<longrightarrow> \<not> meets_target d (hash_with_nonce b m)"
    and "nonce b \<le> n" and "meets_target d (hash_with_nonce b n)"
  shows "mineBlock d b = Some (sealed b n)"
  using mineBlock_skip [OF assms(1-3)] assms(4) by (simp add: mineBlock_stop)

lemma mineBlock_Some_sealed_aux:
  assumes "mineBlock d0 b0 = Some b0'"
  shows "hash b0 = calculateHash b0 \<longrightarrow>
     (\<exists>n\<ge>nonce b0. b0' = sealed b0 n \<and> meets_target d0 (hash_with_nonce b0 n) \<and>
           (\<forall>m. nonce b0 \<le> m \<and> m < n \<longrightarrow> \<not> meets_target d0 (hash_with_nonce b0 m)))"
proof (rule mineBlock.raw_induct [where P = "\<lambda>d b b'. hash b = calculateHash b \<longrightarrow>
     (\<exists>n\<ge>nonce b. b' = sealed b n \<and> meets_target d (hash_with_nonce b n) \<and>
           (\<forall>m. nonce b \<le> m \<and> m < n \<longrightarrow> \<not> meets_target d (hash_with_nonce b m)))",
     OF _ assms], goal_cases)
  case (1 f d b b')
  show ?case
  proof
    assume cons: "hash b = calculateHash b"
    show "\<exists>n\<ge>nonce b. b' = sealed b n \<and> meets_target d (hash_with_nonce b n) \<and>
           (\<forall>m. nonce b \<le> m \<and> m < n \<longrightarrow> \<not> meets_target d (hash_with_nonce b m))"
    proof (cases "meets_target d (hash b)")
      case True
      with 1(2) have "b' = b" by (simp add: meets_target_def)
      with True cons show ?thesis
        by (intro exI [of _ "nonce b"]) (auto simp add: sealed_self hash_with_nonce_def)
    next
      case False
      with 1(2) have "f d (next_nonce b) = Some b'" by (simp add: meets_target_def)
      from mp [OF 1(1) [OF this] next_nonce_consistent]
      obtain n where n0: "nonce (next_nonce b) \<le> n" and n1: "b' = sealed (next_nonce b) n"
        and n2: "meets_target d (hash_with_nonce (next_nonce b) n)"
        and n3: "\<forall>m. nonce (next_nonce b) \<le> m \<and> m < n \<longrightarrow>
               \<not> meets_target d (hash_with_nonce (next_nonce b) m)"
        by (elim exE conjE)
      have hw: "hash_with_nonce (next_nonce b) m = hash_with_nonce b m" for m
        by (simp add: next_nonce_sealed sealed_def hash_with_nonce_def calculateHash_def)
      have first: "\<not> meets_target d (hash_with_nonce b (nonce b))"
        using False cons by (simp add: hash_with_nonce_def)
      have "\<not> meets_target d (hash_with_nonce b m)" if "nonce b \<le> m" "m < n" for m
      proof (cases "m = nonce b")
        case True
        with first show ?thesis by simp
      next
        case False
        with that have "nonce (next_nonce b) \<le> m" by simp
        with n3 that show ?thesis by (simp add: hw)
      qed
      moreover have "nonce b \<le> n" using n0 by simp
      moreover have "b' = sealed b n" using n1 by (simp add: next_nonce_sealed)
      moreover have "meets_target d (hash_with_nonce b n)" using n2 by (simp add: hw)
      ultimately show ?thesis by blast
    qed
  qed
qed

lemma mineBlock_Some_sealed:
  assumes "mineBlock d b = Some b'" and "hash b = calculateHash b"
  obtains n where "nonce b \<le> n" "b' = sealed b n" "meets_target d (hash_with_nonce b n)"
    "\<forall>m. nonce b \<le> m \<and> m < n \<longrightarrow> \<not> meets_target d (hash_with_nonce b m)"
  using mineBlock_Some_sealed_aux [OF assms(1)] assms(2) by blast

lemma mineBlock_returns:
  assumes "hash b = calculateHash b" and "nonce b \<le> n"
    and "meets_target d (hash_with_nonce b n)"
  shows "\<exists>b'. mineBlock d b = Some b'"
proof -
  let ?Q = "\<lambda>k. nonce b \<le> k \<and> meets_target d (hash_with_nonce b k)"
  define k where "k = (LEAST k. ?Q k)"
  have "?Q n" using assms(2,3) by simp
  then have k: "?Q k" unfolding k_def by (rule LeastI)
  have least: "\<not> ?Q m" if "m < k" for m
    using that unfolding k_def by (rule not_less_Least)
  have "mineBlock d b = Some (sealed b k)"
  proof (rule mineBlock_found [OF assms(1)])
    show "\<forall>m. nonce b \<le> m \<and> m < k \<longrightarrow> \<not> meets_target d (hash_with_nonce b m)"
      using least by blast
    show "nonce b \<le> k" using k by simp
    show "meets_target d (hash_with_nonce b k)" using k by simp
  qed
  then show ?thesis by blast
qed

lemma new_Block_fields [simp]:
  "index (new_Block i t txs p) = i" "timestamp (new_Block i t txs p) = t"
  "transactions (new_Block i t txs p) = txs" "previousHash (new_Block i t txs p) = p"
  "nonce (new_Block i t txs p) = 0"
  "hash (new_Block i t txs p) = calculateHash (new_Block i t txs p)"
  by (simp_all add: new_Block_def Let_def calculateHash_def)


text \<open>The run: construction and the first mined block.\<close>

lemmas hash_eval = calculateHash_def nat_toString.simps int_toString_def digit_def
  json_transactions_def json_Transaction_def json_string_def json_escape_def

lemma replicate_4: "replicate 4 x = [x, x, x, x]"
  by (simp add: eval_nat_numeral)

lemma meets_target_4: "meets_target 4 h = (take 4 h = ''0000'')"
  by (simp add: meets_target_def replicate_4)

lemma new_genesis: "createGenesisBlock 1700000000000 = genesis_block"
  by (simp add: createGenesisBlock_def new_Block_def Let_def genesis_block_def hash_eval sha_genesis)

lemma new_ledger0: "new_Blockchain 1700000000000 = ledger0"
  by (simp add: new_Blockchain_def ledger0_def new_genesis)

lemma mine_block1:
  "mineBlock 4 (new_Block 1 1700000116198 [] ''971c089c122f5f8bb50333b8a5de707695259ab6937fb4d429d7986f7f94dc9e'') = Some block1"
proof -
  let ?B = "new_Block 1 1700000116198 [] ''971c089c122f5f8bb50333b8a5de707695259ab6937fb4d429d7986f7f94dc9e''"
  have 0: "hash_with_nonce ?B 0 = ''ceb9d2b11be39d5faa87d145dd562abb17b547f6f425da17058483f794e0dcee''"
    by (simp add: hash_with_nonce_def new_Block_def Let_def hash_eval sha_b1_n0)
  have 1: "hash_with_nonce ?B 1 = ''0000e58866e05ed04970ab6f39b8c1303ca8864f21107ce2259e53441bbe7860''"
    by (simp add: hash_with_nonce_def new_Block_def Let_def hash_eval sha_b1_n1)
  have "mineBlock 4 ?B = Some (sealed ?B 1)"
  proof (rule mineBlock_found)
    show "hash ?B = calculateHash ?B" by simp
    show "\<forall>m. nonce ?B \<le> m \<and> m < 1 \<longrightarrow> \<not> meets_target 4 (hash_with_nonce ?B m)"
      using 0 by (simp add: meets_target_4)
    show "nonce ?B \<le> 1" by simp
    show "meets_target 4 (hash_with_nonce ?B 1)" using 1 by (simp add: meets_target_4)
  qed
  moreover have "sealed ?B 1 = block1"
    using 1 by (simp add: sealed_def new_Block_def Let_def block1_def)
  ultimately show ?thesis by simp
qed


text \<open>
  C2, as amended: for every block whose stored hash is the hash of its fields (as it is
  after construction and after mining) and every difficulty \<open>d\<close>, when \<open>mineBlock(d)\<close>
  returns, the first \<open>d\<close> characters of the block's hash are all \<open>0\<close> and the hash is
  \<open>calculateHash\<close> of the block's fields; and it does return whenever some nonce from the
  block's own nonce on gives such a hash.
\<close>

theorem mineBlock_postcondition:
  assumes "hash b = calculateHash b"
  shows "(\<forall>b'. mineBlock d b = Some b' \<longrightarrow>
            take d (hash b') = replicate d CHR ''0'' \<and> hash b' = calculateHash b') \<and>
         (\<forall>n. nonce b \<le> n \<and> meets_target d (hash_with_nonce b n) \<longrightarrow>
            (\<exists>b'. mineBlock d b = Some b'))"
proof (intro conjI allI impI)
  fix b' assume m: "mineBlock d b = Some b'"
  from m assms obtain n where n: "b' = sealed b n" "meets_target d (hash_with_nonce b n)"
    by (rule mineBlock_Some_sealed)
  from n show "take d (hash b') = replicate d CHR ''0''" by (simp add: meets_target_def)
  from n show "hash b' = calculateHash b'" by simp
next
  fix n assume "nonce b \<le> n \<and> meets_target d (hash_with_nonce b n)"
  with assms show "\<exists>b'. mineBlock d b = Some b'"
    by (intro mineBlock_returns [of b n d]) simp_all
qed

theorem mineBlock_postcondition_witness:
  "hash (new_Block 1 1700000116198 [] ''971c089c122f5f8bb50333b8a5de707695259ab6937fb4d429d7986f7f94dc9e'') = calculateHash (new_Block 1 1700000116198 [] ''971c089c122f5f8bb50333b8a5de707695259ab6937fb4d429d7986f7f94dc9e'') \<and>
   mineBlock 4 (new_Block 1 1700000116198 [] ''971c089c122f5f8bb50333b8a5de707695259ab6937fb4d429d7986f7f94dc9e'') = Some block1 \<and>
   take 4 (hash block1) = ''0000'' \<and> hash block1 = calculateHash block1"
proof -
  let ?B = "new_Block 1 1700000116198 [] ''971c089c122f5f8bb50333b8a5de707695259ab6937fb4d429d7986f7f94dc9e''"
  have c: "hash ?B = calculateHash ?B" by simp
  from mineBlock_postcondition [OF c, of 4] mine_block1
  have "take 4 (hash block1) = replicate 4 CHR ''0'' \<and> hash block1 = calculateHash block1"
    by blast
  then have "take 4 (hash block1) = ''0000''" and "hash block1 = calculateHash block1"
    unfolding replicate_4 by blast+
  with c mine_block1 show ?thesis by blast
qed

text \<open>
  The claim as stated, for every block, fails on a block whose stored hash is stale: the
  mined block of the run with its nonce overwritten by 0 still carries a hash with four
  leading zeros, so \<open>mineBlock(4)\<close> returns at once and leaves a hash that is not the
  hash of the block's fields.
\<close>

theorem mineBlock_stale_hash_counterexample:
  "mineBlock 4 (block1\<lparr>nonce := 0\<rparr>) = Some (block1\<lparr>nonce := 0\<rparr>) \<and>
   hash (block1\<lparr>nonce := 0\<rparr>) \<noteq> calculateHash (block1\<lparr>nonce := 0\<rparr>)"
proof
  show "mineBlock 4 (block1\<lparr>nonce := 0\<rparr>) = Some (block1\<lparr>nonce := 0\<rparr>)"
    by (rule mineBlock_stop) (simp add: meets_target_4 block1_def)
  show "hash (block1\<lparr>nonce := 0\<rparr>) \<noteq> calculateHash (block1\<lparr>nonce := 0\<rparr>)"
    by (simp add: block1_def hash_eval sha_b1_n0)
qed

text \<open>
  C9: for a block as the constructor leaves it, \<open>mineBlock(d)\<close> returns exactly when some
  nonce gives a hash with \<open>d\<close> leading zeros, and then the block's nonce is the smallest
  such nonce, its hash is the hash computed with that nonce and nothing else has changed. In
  particular, when the hash computed at construction (nonce 0) already has \<open>d\<close> leading
  zeros, the block is returned as it is, with nonce 0.
\<close>

theorem mineBlock_least_nonce:
  "(\<forall>b. mineBlock d (new_Block i t txs p) = Some b \<longrightarrow>
      meets_target d (hash_with_nonce (new_Block i t txs p) (nonce b)) \<and>
      (\<forall>m<nonce b. \<not> meets_target d (hash_with_nonce (new_Block i t txs p) m)) \<and>
      b = (new_Block i t txs p)\<lparr>nonce := nonce b,
             hash := hash_with_nonce (new_Block i t txs p) (nonce b)\<rparr>) \<and>
   (\<forall>n. meets_target d (hash_with_nonce (new_Block i t txs p) n) \<longrightarrow>
      (\<exists>b. mineBlock d (new_Block i t txs p) = Some b)) \<and>
   (meets_target d (hash_with_nonce (new_Block i t txs p) 0) \<longrightarrow>
      mineBlock d (new_Block i t txs p) = Some (new_Block i t txs p))"
proof -
  let ?B = "new_Block i t txs p"
  have cons: "hash ?B = calculateHash ?B" by simp
  have n0: "nonce ?B = 0" by simp
  have 1: "meets_target d (hash_with_nonce ?B (nonce b)) \<and>
      (\<forall>m<nonce b. \<not> meets_target d (hash_with_nonce ?B m)) \<and>
      b = ?B\<lparr>nonce := nonce b, hash := hash_with_nonce ?B (nonce b)\<rparr>"
    if "mineBlock d ?B = Some b" for b
  proof -
    from that cons obtain n where n: "b = sealed ?B n" "meets_target d (hash_with_nonce ?B n)"
      "\<forall>m. nonce ?B \<le> m \<and> m < n \<longrightarrow> \<not> meets_target d (hash_with_nonce ?B m)"
      by (rule mineBlock_Some_sealed)
    have "nonce b = n" using n(1) by simp
    with n show ?thesis by (simp add: sealed_def)
  qed
  have 2: "\<exists>b. mineBlock d ?B = Some b" if "meets_target d (hash_with_nonce ?B n)" for n
    using mineBlock_returns [OF cons, of n d] that by (simp add: n0)
  have 3: "mineBlock d ?B = Some ?B" if "meets_target d (hash_with_nonce ?B 0)"
  proof -
    have "hash_with_nonce ?B 0 = hash ?B"
      by (simp add: hash_with_nonce_def new_Block_def Let_def calculateHash_def)
    with that show ?thesis by (simp add: mineBlock_stop)
  qed
  from 1 2 3 show ?thesis by blast
qed


theorem mineBlock_least_nonce_witness:
  "mineBlock 4 (new_Block 1 1700000116198 [] ''971c089c122f5f8bb50333b8a5de707695259ab6937fb4d429d7986f7f94dc9e'') = Some block1 \<and>
   nonce block1 = 1 \<and>
   meets_target 4 (hash_with_nonce (new_Block 1 1700000116198 [] ''971c089c122f5f8bb50333b8a5de707695259ab6937fb4d429d7986f7f94dc9e'') 1) \<and>
   \<not> meets_target 4 (hash_with_nonce (new_Block 1 1700000116198 [] ''971c089c122f5f8bb50333b8a5de707695259ab6937fb4d429d7986f7f94dc9e'') 0)"
  using mineBlock_least_nonce [of 4 1 1700000116198 "[]" "''971c089c122f5f8bb50333b8a5de707695259ab6937fb4d429d7986f7f94dc9e''"] mine_block1
  by (simp add: block1_def meets_target_4)

section \<open>Validation\<close>

lemma validateLoop_end: "length c \<le> i \<Longrightarrow> validateLoop c i = (True, [])"
  by (subst validateLoop.simps) simp

lemma validateLoop_step:
  "i < length c \<Longrightarrow> hash_check c i \<Longrightarrow> link_check c i \<Longrightarrow>
     validateLoop c i = validateLoop c (Suc i)"
  by (subst validateLoop.simps) (simp add: hash_check_def link_check_def Let_def)

lemma validateLoop_stop:
  "i < length c \<Longrightarrow> \<not> (hash_check c i \<and> link_check c i) \<Longrightarrow>
     validateLoop c i = (False, [failure_line c i])"
  by (subst validateLoop.simps)
     (auto simp add: hash_check_def link_check_def Let_def failure_line_def)

lemma validateLoop_pass:
  "(\<forall>j. i \<le> j \<and> j < length c \<longrightarrow> hash_check c j \<and> link_check c j) \<Longrightarrow>
     validateLoop c i = (True, [])"
proof (induction "length c - i" arbitrary: i)
  case 0
  then show ?case by (simp add: validateLoop_end)
next
  case (Suc n)
  then have "i < length c" by simp
  moreover from Suc.prems this have "hash_check c i" "link_check c i" by auto
  ultimately have "validateLoop c i = validateLoop c (Suc i)" by (rule validateLoop_step)
  also have "\<dots> = (True, [])"
  proof (rule Suc.hyps(1))
    show "n = length c - Suc i" using Suc.hyps(2) by simp
    show "\<forall>j. Suc i \<le> j \<and> j < length c \<longrightarrow> hash_check c j \<and> link_check c j"
      using Suc.prems by simp
  qed
  finally show ?case .
qed

lemma validateLoop_fail:
  assumes "i \<le> k" and "k < length c"
    and "\<forall>j. i \<le> j \<and> j < k \<longrightarrow> hash_check c j \<and> link_check c j"
    and "\<not> (hash_check c k \<and> link_check c k)"
  shows "validateLoop c i = (False, [failure_line c k])"
  using assms(1,3)
proof (induction "k - i" arbitrary: i)
  case 0
  then have "i = k" by simp
  with assms(2,4) show ?case by (simp add: validateLoop_stop)
next
  case (Suc n)
  then have ik: "i < k" by simp
  with assms(2) have "i < length c" by simp
  moreover from Suc.prems ik have "hash_check c i" "link_check c i" by auto
  ultimately have "validateLoop c i = validateLoop c (Suc i)" by (rule validateLoop_step)
  also have "\<dots> = (False, [failure_line c k])"
  proof (rule Suc.hyps(1))
    show "n = k - Suc i" using Suc.hyps(2) by simp
    show "Suc i \<le> k" using ik by simp
    show "\<forall>j. Suc i \<le> j \<and> j < k \<longrightarrow> hash_check c j \<and> link_check c j"
      using Suc.prems by simp
  qed
  finally show ?case .
qed

lemma validateLoop_True_iff:
  "fst (validateLoop c i) \<longleftrightarrow>
     (\<forall>j. i \<le> j \<and> j < length c \<longrightarrow> hash_check c j \<and> link_check c j)"
proof
  assume ok: "fst (validateLoop c i)"
  show "\<forall>j. i \<le> j \<and> j < length c \<longrightarrow> hash_check c j \<and> link_check c j"
  proof (rule ccontr)
    assume "\<not> ?thesis"
    then have ex: "\<exists>k. i \<le> k \<and> k < length c \<and> \<not> (hash_check c k \<and> link_check c k)" by blast
    define k where "k = (LEAST k. i \<le> k \<and> k < length c \<and> \<not> (hash_check c k \<and> link_check c k))"
    from ex have k: "i \<le> k \<and> k < length c \<and> \<not> (hash_check c k \<and> link_check c k)"
      unfolding k_def by (rule LeastI_ex)
    have "\<not> (i \<le> j \<and> j < length c \<and> \<not> (hash_check c j \<and> link_check c j))" if "j < k" for j
      using that unfolding k_def by (rule not_less_Least)
    with k have "\<forall>j. i \<le> j \<and> j < k \<longrightarrow> hash_check c j \<and> link_check c j"
      by (metis less_trans)
    with k have "validateLoop c i = (False, [failure_line c k])"
      by (intro validateLoop_fail) simp_all
    with ok show False by simp
  qed
next
  assume "\<forall>j. i \<le> j \<and> j < length c \<longrightarrow> hash_check c j \<and> link_check c j"
  then show "fst (validateLoop c i)" by (simp add: validateLoop_pass)
qed

lemma validateLoop_cong:
  assumes "length c' = length c"
    and "\<forall>j. i \<le> j \<and> j < length c \<longrightarrow>
          hash_check c' j = hash_check c j \<and> link_check c' j = link_check c j"
  shows "validateLoop c' i = validateLoop c i"
  using assms(2)
proof (induction "length c - i" arbitrary: i)
  case 0
  with assms(1) show ?case by (simp add: validateLoop_end)
next
  case (Suc n)
  then have i: "i < length c" by simp
  with Suc.prems have eq: "hash_check c' i = hash_check c i" "link_check c' i = link_check c i"
    by auto
  show ?case
  proof (cases "hash_check c i \<and> link_check c i")
    case True
    have "validateLoop c' (Suc i) = validateLoop c (Suc i)"
    proof (rule Suc.hyps(1))
      show "n = length c - Suc i" using Suc.hyps(2) by simp
      show "\<forall>j. Suc i \<le> j \<and> j < length c \<longrightarrow>
          hash_check c' j = hash_check c j \<and> link_check c' j = link_check c j"
        using Suc.prems by simp
    qed
    with True eq i assms(1) show ?thesis by (simp add: validateLoop_step)
  next
    case False
    have "failure_line c' i = failure_line c i"
      using eq by (simp add: failure_line_def)
    with False eq i assms(1) show ?thesis by (simp add: validateLoop_stop)
  qed
qed

lemma validateChain_fst: "validateChain l = fst (validateLoop (chain l) 1)"
  by (simp add: validateChain_def)


section \<open>The concrete run\<close>

lemma new_block2:
  "new_Block 2 1700000151107 [reward1] ''0000e58866e05ed04970ab6f39b8c1303ca8864f21107ce2259e53441bbe7860'' = block2"
  by (simp add: new_Block_def Let_def block2_def hash_eval reward1_def sha_b2)

lemma mine_block2:
  "mineBlock 4 (new_Block 2 1700000151107 [reward1] ''0000e58866e05ed04970ab6f39b8c1303ca8864f21107ce2259e53441bbe7860'') = Some block2"
  unfolding new_block2 by (rule mineBlock_stop) (simp add: meets_target_4 block2_def)



lemma new_block1_inf:
  "new_Block 1 1700000121419 [transfer_inf] ''971c089c122f5f8bb50333b8a5de707695259ab6937fb4d429d7986f7f94dc9e'' = block1_inf"
  by (simp add: new_Block_def Let_def block1_inf_def hash_eval transfer_inf_def sha_b1_inf)

lemma mine_block1_inf:
  "mineBlock 4 (new_Block 1 1700000121419 [transfer_inf] ''971c089c122f5f8bb50333b8a5de707695259ab6937fb4d429d7986f7f94dc9e'') = Some block1_inf"
  unfolding new_block1_inf by (rule mineBlock_stop) (simp add: meets_target_4 block1_inf_def)

lemma run_ledger1:
  "minePendingTransactions (Some ''MinerX'') 1700000116198 1700000116199 ledger0 = Some (Inr ledger1)"
  using mine_block1
  by (simp add: minePendingTransactions_def getLastBlock_def ledger0_def ledger1_def
      genesis_block_def new_Transaction_def reward1_def)

lemma run_ledger2:
  "minePendingTransactions (Some ''MinerX'') 1700000151107 1700000151108 ledger1 = Some (Inr ledger2)"
  using mine_block2
  by (simp add: minePendingTransactions_def getLastBlock_def ledger1_def ledger2_def
      block1_def new_Transaction_def reward2_def numeral_2_eq_2)






lemma run_ledger1_inf:
  "addTransaction transfer_inf ledger0 = Inr (ledger0\<lparr>pendingTransactions := [transfer_inf]\<rparr>)"
  "minePendingTransactions (Some ''MinerX'') 1700000121419 1700000121420
     (ledger0\<lparr>pendingTransactions := [transfer_inf]\<rparr>) = Some (Inr ledger1_inf)"
  using mine_block1_inf
  by (simp_all add: addTransaction_def minePendingTransactions_def getLastBlock_def ledger0_def
      ledger1_inf_def genesis_block_def new_Transaction_def transfer_inf_def)

lemma reachable_ledger0: "reachable ledger0"
  using reachable.constructed [of 1700000000000] by (simp add: new_ledger0)

lemma reachable_ledger1: "reachable ledger1"
  by (rule reachable.called [OF reachable_ledger0,
        of "MinePendingTransactions (Some ''MinerX'') 1700000116198 1700000116199" Returned])
     (simp add: exec_def run_ledger1)

lemma reachable_ledger2: "reachable ledger2"
  by (rule reachable.called [OF reachable_ledger1,
        of "MinePendingTransactions (Some ''MinerX'') 1700000151107 1700000151108" Returned])
     (simp add: exec_def run_ledger2)



lemma reachable_ledger1_inf: "reachable ledger1_inf"
proof -
  have "reachable (ledger0\<lparr>pendingTransactions := [transfer_inf]\<rparr>)"
    by (rule reachable.called [OF reachable_ledger0, of "AddTransaction transfer_inf" Returned])
       (simp add: exec_def run_ledger1_inf)
  then show ?thesis
    by (rule reachable.called [where c = "MinePendingTransactions (Some ''MinerX'') 1700000121419 1700000121420"
          and r = Returned])
       (simp add: exec_def run_ledger1_inf)
qed


text \<open>The checks of \<open>validateChain\<close> on the blocks of the run.\<close>

lemma checks_block1:
  "hash_check (genesis_block # block1 # bs) 1" "link_check (genesis_block # block1 # bs) 1"
  by (simp_all add: hash_check_def link_check_def genesis_block_def block1_def hash_eval sha_b1_n1)

lemma checks_block2:
  "hash_check [genesis_block, block1, block2] 2" "link_check [genesis_block, block1, block2] 2"
  by (simp_all add: hash_check_def link_check_def block1_def block2_def reward1_def
      hash_eval sha_b2)

lemma checks_block2_tampered:
  "\<not> hash_check [genesis_block, block1, block2\<lparr>transactions := [reward1\<lparr>amount := Fin 1000\<rparr>]\<rparr>] 2"
  by (simp add: hash_check_def block2_def reward1_def hash_eval sha_b2_tampered)

lemma valid_ledger2: "validateChain ledger2"
proof -
  have "hash_check (chain ledger2) j \<and> link_check (chain ledger2) j"
    if "1 \<le> j \<and> j < length (chain ledger2)" for j
  proof -
    from that have "j = 1 \<or> j = 2" by (auto simp: ledger2_def)
    then show ?thesis using checks_block1 [of "[block2]"] checks_block2
      by (auto simp: ledger2_def)
  qed
  then show ?thesis by (simp add: validateChain_def validateLoop_True_iff)
qed

text \<open>
  C1: \<open>validateChain\<close> returns true if and only if every block \<open>i\<close> from 1 to the end
  passes both checks: its stored hash is the hash recomputed from its fields, and its
  \<open>previousHash\<close> is the hash of block \<open>i - 1\<close>. At the first block \<open>k\<close> that fails a check it
  returns false and writes the line for \<open>k\<close>, whatever follows block \<open>k\<close> in the chain (the
  remaining blocks are not examined). The genesis block is never re-hashed: only its stored
  hash is read, so replacing it by any block with the same stored hash changes nothing.
\<close>

theorem validateChain_correct:
  "(validateChain (l::Blockchain) \<longleftrightarrow>
      (\<forall>i. 1 \<le> i \<and> i < length (chain l) \<longrightarrow>
         hash_check (chain l) i \<and> link_check (chain l) i)) \<and>
   (\<forall>k. 1 \<le> k \<and> k < length (chain l) \<and>
        \<not> (hash_check (chain l) k \<and> link_check (chain l) k) \<and>
        (\<forall>j. 1 \<le> j \<and> j < k \<longrightarrow> hash_check (chain l) j \<and> link_check (chain l) j) \<longrightarrow>
      \<not> validateChain l \<and> validateChain_console l = [failure_line (chain l) k] \<and>
      (\<forall>rest. validateLoop (take (Suc k) (chain l) @ rest) 1 = validateLoop (chain l) 1)) \<and>
   (\<forall>g. chain l \<noteq> [] \<and> hash g = hash (chain l ! 0) \<longrightarrow>
      validateLoop ((chain l)[0 := g]) 1 = validateLoop (chain l) 1)"
proof (intro conjI allI impI)
  show "validateChain l \<longleftrightarrow>
      (\<forall>i. 1 \<le> i \<and> i < length (chain l) \<longrightarrow>
         hash_check (chain l) i \<and> link_check (chain l) i)"
    unfolding validateChain_def by (rule validateLoop_True_iff)
next
  fix k
  assume k: "1 \<le> k \<and> k < length (chain l) \<and>
        \<not> (hash_check (chain l) k \<and> link_check (chain l) k) \<and>
        (\<forall>j. 1 \<le> j \<and> j < k \<longrightarrow> hash_check (chain l) j \<and> link_check (chain l) j)"
  let ?c = "chain l"
  from k have run: "validateLoop ?c 1 = (False, [failure_line ?c k])"
    by (intro validateLoop_fail) simp_all
  from run show "\<not> validateChain l" by (simp add: validateChain_def)
  from run show "validateChain_console l = [failure_line ?c k]"
    by (simp add: validateChain_console_def)
  fix rest
  let ?c' = "take (Suc k) ?c @ rest"
  have nth: "?c' ! j = ?c ! j" if "j \<le> k" for j
    using that k by (simp add: nth_append)
  have hc: "hash_check ?c' j = hash_check ?c j" if "j \<le> k" for j
    using nth [OF that] by (simp add: hash_check_def)
  have lc: "link_check ?c' j = link_check ?c j" if "j \<le> k" for j
  proof -
    from that have "j - 1 \<le> k" by simp
    from nth [OF that] nth [OF this] show ?thesis by (simp add: link_check_def)
  qed
  have "validateLoop ?c' 1 = (False, [failure_line ?c' k])"
  proof (rule validateLoop_fail)
    show "1 \<le> k" using k by simp
    show "k < length ?c'" using k by simp
    show "\<forall>j. 1 \<le> j \<and> j < k \<longrightarrow> hash_check ?c' j \<and> link_check ?c' j"
      using k hc lc by simp
    show "\<not> (hash_check ?c' k \<and> link_check ?c' k)" using k hc lc by simp
  qed
  moreover have "failure_line ?c' k = failure_line ?c k"
    using hc [of k] by (simp add: failure_line_def)
  ultimately show "validateLoop ?c' 1 = validateLoop ?c 1" using run by simp
next
  fix g :: Block
  assume g: "chain l \<noteq> [] \<and> hash g = hash (chain l ! 0)"
  let ?c = "chain l"
  show "validateLoop (?c[0 := g]) 1 = validateLoop ?c 1"
  proof (rule validateLoop_cong)
    show "length (?c[0 := g]) = length ?c" by simp
    show "\<forall>j. 1 \<le> j \<and> j < length ?c \<longrightarrow>
          hash_check (?c[0 := g]) j = hash_check ?c j \<and>
          link_check (?c[0 := g]) j = link_check ?c j"
    proof (intro allI impI conjI)
      fix j assume j: "1 \<le> j \<and> j < length ?c"
      then show "hash_check (?c[0 := g]) j = hash_check ?c j"
        by (simp add: hash_check_def)
      from j g have "hash (?c[0 := g] ! (j - 1)) = hash (?c ! (j - 1))"
        by (cases "j - 1") (simp_all add: length_greater_0_conv [symmetric] del: length_greater_0_conv)
      with j show "link_check (?c[0 := g]) j = link_check ?c j"
        by (simp add: link_check_def)
    qed
  qed
qed


theorem validateChain_correct_witness:
  "validateChain ledger2 \<and> \<not> validateChain ledger2_tampered \<and>
   validateChain_console ledger2_tampered = [''Block 2 data corrupted - hash mismatch''] \<and>
   validateLoop (take 3 (chain ledger2_tampered) @ [block1]) 1 =
     validateLoop (chain ledger2_tampered) 1 \<and>
   validateLoop ((chain ledger2_tampered)[0 := genesis_block\<lparr>timestamp := 0\<rparr>]) 1 =
     validateLoop (chain ledger2_tampered) 1"
proof -
  note valid_iff = validateChain_correct [of ledger2, THEN conjunct1]
  note first_failure =
    validateChain_correct [of ledger2_tampered, THEN conjunct2, THEN conjunct1, rule_format, of 2]
  note genesis =
    validateChain_correct [of ledger2_tampered, THEN conjunct2, THEN conjunct2, rule_format,
      of "genesis_block\<lparr>timestamp := 0\<rparr>"]
  have c2: "chain ledger2 = [genesis_block, block1, block2]" by (simp add: ledger2_def)
  have ct: "chain ledger2_tampered =
      [genesis_block, block1, block2\<lparr>transactions := [reward1\<lparr>amount := Fin 1000\<rparr>]\<rparr>]"
    by (simp add: ledger2_tampered_def)
  have ok2: "hash_check (chain ledger2) j \<and> link_check (chain ledger2) j"
    if "1 \<le> j \<and> j < length (chain ledger2)" for j
  proof -
    from that have "j = 1 \<or> j = 2" unfolding c2 by auto
    then show ?thesis unfolding c2 using checks_block1 [of "[block2]"] checks_block2 by blast
  qed
  then have v: "validateChain ledger2" unfolding valid_iff by blast
  have t1: "hash_check (chain ledger2_tampered) j \<and> link_check (chain ledger2_tampered) j"
    if "1 \<le> j \<and> j < 2" for j
  proof -
    from that have "j = 1" by simp
    then show ?thesis unfolding ct
      using checks_block1 [of "[block2\<lparr>transactions := [reward1\<lparr>amount := Fin 1000\<rparr>]\<rparr>]"]
      by blast
  qed
  have t2: "\<not> hash_check (chain ledger2_tampered) 2"
    unfolding ct by (rule checks_block2_tampered)
  have len: "2 < length (chain ledger2_tampered)" unfolding ct by simp
  have prem: "1 \<le> (2::nat) \<and> 2 < length (chain ledger2_tampered) \<and>
        \<not> (hash_check (chain ledger2_tampered) 2 \<and> link_check (chain ledger2_tampered) 2) \<and>
        (\<forall>j. 1 \<le> j \<and> j < 2 \<longrightarrow>
           hash_check (chain ledger2_tampered) j \<and> link_check (chain ledger2_tampered) j)"
    using t1 t2 len by simp
  note r = first_failure [OF prem]
  have fl: "failure_line (chain ledger2_tampered) 2 = ''Block 2 data corrupted - hash mismatch''"
    using t2 by (simp add: failure_line_def nat_toString.simps digit_def)
  have s3: "Suc 2 = 3" by simp
  have g: "validateLoop ((chain ledger2_tampered)[0 := genesis_block\<lparr>timestamp := 0\<rparr>]) 1 =
     validateLoop (chain ledger2_tampered) 1"
  proof (rule genesis)
    show "chain ledger2_tampered \<noteq> [] \<and>
      hash (genesis_block\<lparr>timestamp := 0\<rparr>) = hash (chain ledger2_tampered ! 0)"
      unfolding ct by simp
  qed
  from r have "\<not> validateChain ledger2_tampered"
    and "validateChain_console ledger2_tampered = [''Block 2 data corrupted - hash mismatch'']"
    and "validateLoop (take 3 (chain ledger2_tampered) @ [block1]) 1 =
           validateLoop (chain ledger2_tampered) 1"
    unfolding fl s3 by blast+
  with v g show ?thesis by blast
qed

section \<open>The run of \<open>validateChain\<close>\<close>

lemma validateChain_run_eq:
  "validateChain_run i w =
     (fst (validateLoop (chain (ledger w)) i),
      w\<lparr>console := console w @ snd (validateLoop (chain (ledger w)) i)\<rparr>)"
proof (induction "length (chain (ledger w)) - i" arbitrary: i)
  case 0
  then have "length (chain (ledger w)) \<le> i" by simp
  then show ?case
    by (subst validateChain_run.simps) (simp add: validateLoop_end)
next
  case (Suc n)
  let ?c = "chain (ledger w)"
  from Suc.hyps(2) have i: "i < length ?c" by simp
  show ?case
  proof (cases "hash_check ?c i \<and> link_check ?c i")
    case True
    then have "validateChain_run i w = validateChain_run (Suc i) w"
      using i by (subst validateChain_run.simps) (simp add: hash_check_def link_check_def Let_def)
    also have "\<dots> = (fst (validateLoop ?c (Suc i)),
        w\<lparr>console := console w @ snd (validateLoop ?c (Suc i))\<rparr>)"
      by (rule Suc.hyps(1)) (use Suc.hyps(2) in simp)
    also have "validateLoop ?c (Suc i) = validateLoop ?c i"
      using i True by (simp add: validateLoop_step)
    finally show ?thesis .
  next
    case False
    then have "validateChain_run i w = (False, console_log (failure_line ?c i) w)"
      using i
      by (subst validateChain_run.simps)
         (auto simp add: hash_check_def link_check_def Let_def failure_line_def)
    moreover have "validateLoop ?c i = (False, [failure_line ?c i])"
      using i False by (rule validateLoop_stop)
    ultimately show ?thesis by (simp add: console_log_def)
  qed
qed

lemma exec_ValidateChain: "exec ValidateChain l = Some (ReturnedBool (validateChain l), l)"
  by (simp add: exec_def validateChain_run_eq validateChain_def)

lemma validateLoop_ledger2: "validateLoop (chain ledger2) 1 = (True, [])"
proof (rule validateLoop_pass, intro allI impI)
  fix j assume "1 \<le> j \<and> j < length (chain ledger2)"
  then have "j = 1 \<or> j = 2" by (auto simp: ledger2_def)
  then show "hash_check (chain ledger2) j \<and> link_check (chain ledger2) j"
    using checks_block1 [of "[block2]"] checks_block2 by (auto simp: ledger2_def)
qed

text \<open>
  C8: the run of \<open>validateChain\<close> ends in a state with the ledger it started from: the same
  chain (every field of every block), pending transactions, difficulty and mining reward.
  It returns what the scan finds and only appends the scan's line, if any, to the console.
\<close>

theorem validateChain_frame:
  "ledger (snd (validateChain_run 1 w)) = ledger w \<and>
   chain (ledger (snd (validateChain_run 1 w))) = chain (ledger w) \<and>
   pendingTransactions (ledger (snd (validateChain_run 1 w))) = pendingTransactions (ledger w) \<and>
   difficulty (ledger (snd (validateChain_run 1 w))) = difficulty (ledger w) \<and>
   miningReward (ledger (snd (validateChain_run 1 w))) = miningReward (ledger w) \<and>
   fst (validateChain_run 1 w) = validateChain (ledger w) \<and>
   console (snd (validateChain_run 1 w)) = console w @ validateChain_console (ledger w) \<and>
   exec ValidateChain l = Some (ReturnedBool (validateChain l), l)"
  by (simp add: validateChain_run_eq validateChain_def validateChain_console_def
      exec_ValidateChain [unfolded validateChain_def])

theorem validateChain_frame_witness:
  "validateChain_run 1 \<lparr>ledger = ledger2, console = [''Mining second block...'']\<rparr> =
     (True, \<lparr>ledger = ledger2, console = [''Mining second block...'']\<rparr>) \<and>
   exec ValidateChain ledger2 = Some (ReturnedBool True, ledger2)"
proof -
  let ?w = "\<lparr>ledger = ledger2, console = [''Mining second block...'']\<rparr>"
  note t = validateChain_frame [of ?w ledger2]
  have v: "validateChain ledger2" "validateChain_console ledger2 = []"
    by (simp_all add: validateChain_def validateChain_console_def validateLoop_ledger2
        del: One_nat_def)
  from t v have "fst (validateChain_run 1 ?w) = True" "ledger (snd (validateChain_run 1 ?w)) = ledger2"
    "console (snd (validateChain_run 1 ?w)) = [''Mining second block...'']"
    "exec ValidateChain ledger2 = Some (ReturnedBool True, ledger2)"
    by simp_all
  then show ?thesis by (cases "validateChain_run 1 ?w") auto
qed

text \<open>
  C3: the claim holds of what the program documents (changed transaction data makes
  validation fail), and the code breaks it where the old and the new amount have the same
  JSON text. In the run in which a transfer of \<open>Infinity\<close> was accepted and mined, assigning
  \<open>NaN\<close> to its amount leaves the stored hash and the recomputed hash of block 1 as they
  were, both amounts being written \<open>null\<close>, and \<open>validateChain\<close> still returns true and
  writes nothing.
\<close>

theorem tamper_not_detected:
  "reachable ledger1_inf \<and> validateChain ledger1_inf \<and>
   amount (transactions (chain ledger1_inf ! 1) ! 0) = PosInf \<and>
   amount (transactions (chain ledger1_inf_tampered ! 1) ! 0) = NaN \<and>
   hash (chain ledger1_inf_tampered ! 1) = hash (chain ledger1_inf ! 1) \<and>
   calculateHash (chain ledger1_inf_tampered ! 1) = calculateHash (chain ledger1_inf ! 1) \<and>
   validateChain ledger1_inf_tampered \<and>
   validateChain_run 1 \<lparr>ledger = ledger1_inf_tampered, console = []\<rparr> =
     (True, \<lparr>ledger = ledger1_inf_tampered, console = []\<rparr>)"
proof -
  let ?t = "block1_inf\<lparr>transactions := [transfer_inf\<lparr>amount := NaN\<rparr>]\<rparr>"
  have ci: "chain ledger1_inf = [genesis_block, block1_inf]"
    by (simp add: ledger1_inf_def)
  have ct: "chain ledger1_inf_tampered = [genesis_block, ?t]"
    by (simp add: ledger1_inf_tampered_def)
  have h1: "hash_check [genesis_block, block1_inf] 1 \<and> link_check [genesis_block, block1_inf] 1"
    by (simp add: hash_check_def link_check_def genesis_block_def block1_inf_def
        transfer_inf_def hash_eval sha_b1_inf)
  have h2: "hash_check [genesis_block, ?t] 1 \<and> link_check [genesis_block, ?t] 1"
    by (simp add: hash_check_def link_check_def genesis_block_def block1_inf_def
        transfer_inf_def hash_eval sha_b1_inf)
  have v: "validateLoop [genesis_block, b] 1 = (True, [])"
    if "hash_check [genesis_block, b] 1 \<and> link_check [genesis_block, b] 1" for b
  proof (rule validateLoop_pass, intro allI impI)
    fix k assume "1 \<le> k \<and> k < length [genesis_block, b]"
    then have "k = 1" by simp
    with that show "hash_check [genesis_block, b] k \<and> link_check [genesis_block, b] k" by simp
  qed
  have a: "validateChain ledger1_inf"
    by (simp add: validateChain_def ci v [OF h1] del: One_nat_def)
  have b: "validateChain ledger1_inf_tampered"
    by (simp add: validateChain_def ct v [OF h2] del: One_nat_def)
  have r: "validateChain_run 1 \<lparr>ledger = ledger1_inf_tampered, console = []\<rparr> =
     (True, \<lparr>ledger = ledger1_inf_tampered, console = []\<rparr>)"
    by (simp add: validateChain_run_eq ct v [OF h2] del: One_nat_def)
  have c: "amount (transactions (chain ledger1_inf ! 1) ! 0) = PosInf"
    "amount (transactions (chain ledger1_inf_tampered ! 1) ! 0) = NaN"
    "hash (chain ledger1_inf_tampered ! 1) = hash (chain ledger1_inf ! 1)"
    by (simp_all add: ci ct block1_inf_def transfer_inf_def)
  have d: "calculateHash (chain ledger1_inf_tampered ! 1) = calculateHash (chain ledger1_inf ! 1)"
    by (simp add: ci ct calculateHash_def json_transactions_def json_Transaction_def
        block1_inf_def transfer_inf_def)
  from reachable_ledger1_inf a b c d r show ?thesis by blast
qed

section \<open>Balances\<close>


lemma jadd_assoc: "jadd (jadd x y) z = jadd x (jadd y z)"
  by (cases x; cases y; cases z) simp_all



lemma jadd_zero [simp]: "jadd (Fin 0) x = x" "jadd x (Fin 0) = x"
  by (cases x; simp)+


lemma foldl_jadd: "foldl jadd a xs = jadd a (jsum xs)"
proof (induction xs rule: rev_induct)
  case Nil
  show ?case by (simp add: jsum_def)
next
  case (snoc x xs)
  then show ?case by (simp add: jsum_def jadd_assoc)
qed

lemma jsum_simps [simp]:
  "jsum [] = Fin 0" "jsum (x # xs) = jadd x (jsum xs)" "jsum (xs @ ys) = jadd (jsum xs) (jsum ys)"
proof -
  show "jsum [] = Fin 0" by (simp add: jsum_def)
  show "jsum (x # xs) = jadd x (jsum xs)"
    using foldl_jadd [of x xs] by (simp add: jsum_def)
  show "jsum (xs @ ys) = jadd (jsum xs) (jsum ys)"
    using foldl_jadd [of "jsum xs" ys] by (simp add: jsum_def)
qed







section \<open>Transaction intake\<close>

lemma addTransactions_pending:
  "addTransactions txs l = Inr l' \<Longrightarrow>
     pendingTransactions l' = pendingTransactions l @ txs \<and> chain l' = chain l"
proof (induction txs arbitrary: l)
  case Nil
  then show ?case by simp
next
  case (Cons tx txs)
  from Cons.prems obtain l1 where l1: "addTransaction tx l = Inr l1"
    and rest: "addTransactions txs l1 = Inr l'"
    by (auto split: sum.splits)
  from l1 have "pendingTransactions l1 = pendingTransactions l @ [tx]" "chain l1 = chain l"
    by (auto simp: addTransaction_def split: if_splits)
  with Cons.IH [OF rest] show ?case by simp
qed




section \<open>Block production\<close>

text \<open>
  C4: when \<open>minePendingTransactions(M)\<close> returns, the chain is the old chain with one block
  appended, that block holds exactly the transactions that were pending before the call, and
  the pending transactions are the single reward transaction with sender \<open>null\<close>, recipient
  \<open>M\<close> and amount \<open>miningReward\<close>. The next call of \<open>minePendingTransactions\<close> seals that
  reward, followed by the transactions accepted in between, into the block it appends. The
  call returns whenever the chain is not empty and some nonce gives the new block a hash
  that meets the difficulty.
\<close>
theorem minePendingTransactions_reward_timing:
  "(\<forall>l'. minePendingTransactions m now now' l = Some (Inr l') \<longrightarrow>
      butlast (chain l') = chain l \<and> length (chain l') = Suc (length (chain l)) \<and>
      transactions (last (chain l')) = pendingTransactions l \<and>
      pendingTransactions l' =
        [\<lparr>sender = None, recipient = m, amount = miningReward l, tx_timestamp = now'\<rparr>] \<and>
      difficulty l' = difficulty l \<and> miningReward l' = miningReward l \<and>
      (\<forall>txs l1 m2 t t' l''.
         addTransactions txs l' = Inr l1 \<and>
         minePendingTransactions m2 t t' l1 = Some (Inr l'') \<longrightarrow>
         transactions (last (chain l'')) =
           \<lparr>sender = None, recipient = m, amount = miningReward l, tx_timestamp = now'\<rparr> # txs)) \<and>
   (chain l \<noteq> [] \<and>
    (\<exists>n. meets_target (difficulty l)
       (hash_with_nonce
          (new_Block (length (chain l)) now (pendingTransactions l) (hash (last (chain l)))) n)) \<longrightarrow>
    (\<exists>l'. minePendingTransactions m now now' l = Some (Inr l')))"
proof -
  have step: "butlast (chain l') = chain l \<and> length (chain l') = Suc (length (chain l)) \<and>
      transactions (last (chain l')) = pendingTransactions l \<and>
      pendingTransactions l' =
        [\<lparr>sender = None, recipient = m, amount = miningReward l, tx_timestamp = now'\<rparr>] \<and>
      difficulty l' = difficulty l \<and> miningReward l' = miningReward l"
    if run: "minePendingTransactions m now now' l = Some (Inr l')" for m now now' l l'
  proof -
    from run obtain lastBlock block where "getLastBlock l = Some lastBlock"
      and mined: "mineBlock (difficulty l)
          (new_Block (length (chain l)) now (pendingTransactions l) (hash lastBlock)) = Some block"
      and l': "l' = l\<lparr>chain := chain l @ [block],
          pendingTransactions := [new_Transaction None m (miningReward l) now']\<rparr>"
      by (auto simp: minePendingTransactions_def split: option.splits)
    let ?B = "new_Block (length (chain l)) now (pendingTransactions l) (hash lastBlock)"
    have "hash ?B = calculateHash ?B" by simp
    with mined obtain n where "block = sealed ?B n" by (rule mineBlock_Some_sealed)
    then have "transactions block = pendingTransactions l" by simp
    with l' show ?thesis by (simp add: new_Transaction_def)
  qed
  have 1: "transactions (last (chain l'')) =
           \<lparr>sender = None, recipient = m, amount = miningReward l, tx_timestamp = now'\<rparr> # txs"
    if "minePendingTransactions m now now' l = Some (Inr l')"
      and "addTransactions txs l' = Inr l1 \<and>
           minePendingTransactions m2 t t' l1 = Some (Inr l'')" for l' txs l1 m2 t t' l''
  proof -
    from that(2) have a: "addTransactions txs l' = Inr l1"
      and b: "minePendingTransactions m2 t t' l1 = Some (Inr l'')" by simp_all
    from addTransactions_pending [OF a] step [OF that(1)] step [OF b] show ?thesis by simp
  qed
  have 2: "\<exists>l'. minePendingTransactions m now now' l = Some (Inr l')"
    if ne: "chain l \<noteq> []" and ex: "\<exists>n. meets_target (difficulty l)
       (hash_with_nonce
          (new_Block (length (chain l)) now (pendingTransactions l) (hash (last (chain l)))) n)"
  proof -
    let ?B = "new_Block (length (chain l)) now (pendingTransactions l) (hash (last (chain l)))"
    from ex obtain n where n: "meets_target (difficulty l) (hash_with_nonce ?B n)" ..
    have "\<exists>b. mineBlock (difficulty l) ?B = Some b"
      by (rule mineBlock_returns [of ?B n]) (simp_all add: n)
    with ne show ?thesis
      by (auto simp: minePendingTransactions_def getLastBlock_def)
  qed
  from step 1 2 show ?thesis by blast
qed

theorem minePendingTransactions_reward_timing_witness:
  "minePendingTransactions (Some ''MinerX'') 1700000116198 1700000116199 ledger0 =
     Some (Inr ledger1) \<and>
   transactions (last (chain ledger1)) = pendingTransactions ledger0 \<and>
   pendingTransactions ledger0 = [] \<and>
   pendingTransactions ledger1 =
     [\<lparr>sender = None, recipient = Some ''MinerX'', amount = Fin 100,
       tx_timestamp = 1700000116199\<rparr>] \<and>
   minePendingTransactions (Some ''MinerX'') 1700000151107 1700000151108 ledger1 =
     Some (Inr ledger2) \<and>
   transactions (last (chain ledger2)) =
     [\<lparr>sender = None, recipient = Some ''MinerX'', amount = Fin 100,
       tx_timestamp = 1700000116199\<rparr>]"
proof -
  note t = minePendingTransactions_reward_timing [of "Some ''MinerX''" 1700000116198 1700000116199
      ledger0, THEN conjunct1, rule_format, OF run_ledger1]
  have r: "miningReward ledger0 = Fin 100" "pendingTransactions ledger0 = []"
    by (simp_all add: ledger0_def)
  from t have a: "transactions (last (chain ledger1)) = pendingTransactions ledger0"
    and b: "pendingTransactions ledger1 =
     [\<lparr>sender = None, recipient = Some ''MinerX'', amount = miningReward ledger0,
       tx_timestamp = 1700000116199\<rparr>]"
    and c: "\<forall>txs l1 m2 t t' l''.
         addTransactions txs ledger1 = Inr l1 \<and>
         minePendingTransactions m2 t t' l1 = Some (Inr l'') \<longrightarrow>
         transactions (last (chain l'')) =
           \<lparr>sender = None, recipient = Some ''MinerX'', amount = miningReward ledger0,
             tx_timestamp = 1700000116199\<rparr> # txs"
    by blast+
  have "addTransactions [] ledger1 = Inr ledger1" by simp
  with c run_ledger2 have d: "transactions (last (chain ledger2)) =
     [\<lparr>sender = None, recipient = Some ''MinerX'', amount = miningReward ledger0,
       tx_timestamp = 1700000116199\<rparr>]"
    by blast
  from a b d run_ledger1 run_ledger2 show ?thesis unfolding r by blast
qed

section \<open>Reachable states\<close>

lemma exec_cases:
  assumes "exec c l = Some (r, l')"
  obtains "l' = l"
  | tx where "addTransaction tx l = Inr l'"
  | m now now' where "minePendingTransactions m now now' l = Some (Inr l')"
proof (cases c)
  case (AddTransaction tx)
  with assms show ?thesis
    by (auto simp: exec_def split: sum.splits intro: that)
next
  case (MinePendingTransactions m now now')
  with assms show ?thesis
    by (auto simp: exec_def split: sum.splits option.splits intro: that)
next
  case ValidateChain
  with assms show ?thesis by (auto simp: exec_ValidateChain intro: that)
next
  case (GetBalance a)
  with assms show ?thesis by (auto simp: exec_def intro: that)
qed

lemma addTransaction_Inr:
  assumes "addTransaction tx l = Inr l'"
  shows "l' = l\<lparr>pendingTransactions := pendingTransactions l @ [tx]\<rparr>"
    and "sender tx \<noteq> None" and "recipient tx \<noteq> None"
  using assms
  by (cases "sender tx"; cases "recipient tx"; simp add: addTransaction_def split: if_splits)+

lemma minePendingTransactions_Inr:
  assumes "minePendingTransactions m now now' l = Some (Inr l')"
  obtains block where "chain l' = chain l @ [block]" "chain l \<noteq> []"
    "transactions block = pendingTransactions l"
    "pendingTransactions l' = [new_Transaction None m (miningReward l) now']"
    "miningReward l' = miningReward l" "difficulty l' = difficulty l"
proof -
  from assms obtain lastBlock block where lb: "getLastBlock l = Some lastBlock"
    and mined: "mineBlock (difficulty l)
        (new_Block (length (chain l)) now (pendingTransactions l) (hash lastBlock)) = Some block"
    and l': "l' = l\<lparr>chain := chain l @ [block],
        pendingTransactions := [new_Transaction None m (miningReward l) now']\<rparr>"
    by (auto simp: minePendingTransactions_def split: option.splits)
  let ?B = "new_Block (length (chain l)) now (pendingTransactions l) (hash lastBlock)"
  have "hash ?B = calculateHash ?B" by simp
  with mined obtain n where "block = sealed ?B n" by (rule mineBlock_Some_sealed)
  then have "transactions block = pendingTransactions l" by simp
  moreover from lb have "chain l \<noteq> []" by (auto simp: getLastBlock_def split: if_splits)
  ultimately show ?thesis using l' by (intro that [of block]) simp_all
qed

lemma reachable_genesis:
  "reachable l \<Longrightarrow> chain l \<noteq> [] \<and> (\<exists>now. chain l ! 0 = createGenesisBlock now)"
proof (induction rule: reachable.induct)
  case (constructed now)
  show ?case by (auto simp: new_Blockchain_def)
next
  case (called l c r l')
  from called.hyps(2) show ?case
  proof (cases rule: exec_cases)
    case 1
    with called.IH show ?thesis by simp
  next
    case (2 tx)
    from addTransaction_Inr(1) [OF this] called.IH show ?thesis by simp
  next
    case (3 m now now')
    then obtain block where "chain l' = chain l @ [block]"
      by (rule minePendingTransactions_Inr)
    with called.IH show ?thesis by (simp add: nth_append)
  qed
qed

lemma createGenesisBlock_fields:
  "index (createGenesisBlock now) = 0" "timestamp (createGenesisBlock now) = now"
  "previousHash (createGenesisBlock now) = ''0''" "transactions (createGenesisBlock now) = []"
  "nonce (createGenesisBlock now) = 0"
  "hash (createGenesisBlock now) = calculateHash (createGenesisBlock now)"
  by (simp_all add: createGenesisBlock_def)

text \<open>
  C7: in every state reached from construction by calls of \<open>addTransaction\<close>,
  \<open>minePendingTransactions\<close>, \<open>validateChain\<close> and \<open>getBalance\<close>, the chain is not empty and
  its first block is the genesis block as constructed: index 0, previous hash \<open>"0"\<close>, no
  transactions, nonce 0 and a hash consistent with these fields. A freshly constructed
  ledger holds the genesis block only and \<open>validateChain\<close> returns true on it.
\<close>
theorem genesis_invariant:
  "(reachable l \<longrightarrow>
      chain l \<noteq> [] \<and> (\<exists>now. chain l ! 0 = createGenesisBlock now) \<and>
      index (chain l ! 0) = 0 \<and> previousHash (chain l ! 0) = ''0'' \<and>
      transactions (chain l ! 0) = [] \<and> nonce (chain l ! 0) = 0 \<and>
      hash (chain l ! 0) = calculateHash (chain l ! 0)) \<and>
   chain (new_Blockchain now) = [createGenesisBlock now] \<and>
   validateChain (new_Blockchain now)"
proof -
  have 1: "chain l \<noteq> [] \<and> (\<exists>now. chain l ! 0 = createGenesisBlock now) \<and>
      index (chain l ! 0) = 0 \<and> previousHash (chain l ! 0) = ''0'' \<and>
      transactions (chain l ! 0) = [] \<and> nonce (chain l ! 0) = 0 \<and>
      hash (chain l ! 0) = calculateHash (chain l ! 0)" if "reachable l"
  proof -
    from reachable_genesis [OF that] obtain t where "chain l \<noteq> []"
      and g: "chain l ! 0 = createGenesisBlock t" by blast
    then show ?thesis unfolding g by (auto simp: createGenesisBlock_fields)
  qed
  have 2: "chain (new_Blockchain now) = [createGenesisBlock now]"
    by (simp add: new_Blockchain_def)
  have 3: "validateChain (new_Blockchain now)"
    by (simp add: validateChain_def 2 validateLoop_end)
  from 1 2 3 show ?thesis by blast
qed

theorem genesis_invariant_witness:
  "reachable ledger2 \<and> chain ledger2 = [genesis_block, block1, block2] \<and>
   index genesis_block = 0 \<and> previousHash genesis_block = ''0'' \<and>
   transactions genesis_block = [] \<and> hash genesis_block = calculateHash genesis_block \<and>
   validateChain (new_Blockchain 1700000000000)"
proof -
  have c: "chain ledger2 ! 0 = genesis_block" "chain ledger2 = [genesis_block, block1, block2]"
    by (simp_all add: ledger2_def)
  from genesis_invariant [of ledger2 1700000000000] reachable_ledger2 c show ?thesis
    by simp
qed

section \<open>The balance of the null address\<close>









end
